theory Spec2Isabelle
  imports Complex_Main
begin

section \<open>Python values\<close>

text \<open>
  The exceptions that the modelled code can raise. \<open>HTTPException\<close> carries the
  status code and the detail of the response, \<open>OtherException\<close> the message of an
  exception raised by a library.
\<close>

datatype py_error =
    StopIteration
  | IndexError
  | ZeroDivisionError
  | OtherException string
  | HTTPException nat string

text \<open>
  Python's \<open>xs[i:]\<close> and \<open>xs[i:j]\<close> for a list and integer bounds: a negative bound
  counts from the end, and every bound is clamped to the list.
\<close>

definition py_slice_index :: "nat \<Rightarrow> int \<Rightarrow> nat" where
  "py_slice_index n i = (if i < 0 then nat (max 0 (int n + i)) else min (nat i) n)"

definition py_slice_from :: "'a list \<Rightarrow> int \<Rightarrow> 'a list" where
  "py_slice_from xs i = drop (py_slice_index (length xs) i) xs"

definition py_slice :: "'a list \<Rightarrow> int \<Rightarrow> int \<Rightarrow> 'a list" where
  "py_slice xs i j =
     (let lo = py_slice_index (length xs) i; hi = py_slice_index (length xs) j
      in take (hi - lo) (drop lo xs))"

text \<open>
  Numbers are exact: a Python \<open>float\<close> is a real number, \<open>int(x)\<close> truncates towards
  zero and \<open>round(x, n)\<close> is the nearest multiple of \<open>10\<^sup>-\<^sup>n\<close>, a tie going to the
  even one.
\<close>

definition py_int :: "real \<Rightarrow> int" where
  "py_int x = (if x < 0 then \<lceil>x\<rceil> else \<lfloor>x\<rfloor>)"

definition round_half_even :: "real \<Rightarrow> int" where
  "round_half_even y =
     (let f = \<lfloor>y\<rfloor>; d = y - of_int f
      in if d < 1 / 2 then f else if 1 / 2 < d then f + 1
         else if even f then f else f + 1)"

definition py_round :: "real \<Rightarrow> nat \<Rightarrow> real" where
  "py_round x n = of_int (round_half_even (x * 10 ^ n)) / 10 ^ n"

text \<open>
  A string is a list of characters with code points below 256. \<open>str.isspace\<close> on these:
  tab to carriage return, the four separators \<open>0x1C\<close> to \<open>0x1F\<close>, space, \<open>0x85\<close> and
  \<open>0xA0\<close>.
\<close>

definition whitespace :: "char list" where
  "whitespace =
     [CHR 0x09, CHR 0x0A, CHR 0x0B, CHR 0x0C, CHR 0x0D, CHR 0x1C, CHR 0x1D, CHR 0x1E,
      CHR 0x1F, CHR 0x20, CHR 0x85, CHR 0xA0]"

definition py_isspace :: "char \<Rightarrow> bool" where
  "py_isspace c = (c \<in> set whitespace)"

definition py_strip :: "string \<Rightarrow> string" where
  "py_strip s = rev (dropWhile py_isspace (rev (dropWhile py_isspace s)))"

fun py_join :: "string \<Rightarrow> string list \<Rightarrow> string" where
  "py_join sep [] = []"
| "py_join sep [x] = x"
| "py_join sep (x # y # ys) = x @ sep @ py_join sep (y # ys)"

text \<open>\<open>str(i)\<close> of an integer: its decimal digits, after a minus sign when negative.\<close>

definition digit_char :: "nat \<Rightarrow> char" where
  "digit_char d = ''0123456789'' ! d"

fun str_nat :: "nat \<Rightarrow> string" where
  "str_nat n = (if n < 10 then [digit_char n] else str_nat (n div 10) @ [digit_char (n mod 10)])"

declare str_nat.simps [simp del]

definition py_str_int :: "int \<Rightarrow> string" where
  "py_str_int i = (if i < 0 then CHR ''-'' # str_nat (nat (- i)) else str_nat (nat i))"

text \<open>\<open>str(e)\<close> of an exception.\<close>

fun err_str :: "py_error \<Rightarrow> string" where
  "err_str StopIteration = []"
| "err_str IndexError = ''list index out of range''"
| "err_str ZeroDivisionError = ''division by zero''"
| "err_str (OtherException m) = m"
| "err_str (HTTPException code detail) = detail"

section \<open>The LRU cache of \<^verbatim>\<open>backend/cache.py\<close>\<close>

subsection \<open>\<^verbatim>\<open>collections.OrderedDict\<close>\<close>

text \<open>
  An \<open>OrderedDict\<close> is an association list in insertion order, first inserted key
  first. Keys are unique; every operation below keeps them so.
\<close>

type_synonym ('k, 'v) odict = "('k \<times> 'v) list"

definition od_contains :: "('k, 'v) odict \<Rightarrow> 'k \<Rightarrow> bool" where
  "od_contains d k = (map_of d k \<noteq> None)"

definition od_del :: "('k, 'v) odict \<Rightarrow> 'k \<Rightarrow> ('k, 'v) odict" where
  "od_del d k = filter (\<lambda>e. fst e \<noteq> k) d"

text \<open>\<open>d.move_to_end(k)\<close> for a key that is present (the only way the cache calls it).\<close>

definition od_move_to_end :: "('k, 'v) odict \<Rightarrow> 'k \<Rightarrow> ('k, 'v) odict" where
  "od_move_to_end d k =
     (case map_of d k of None \<Rightarrow> d | Some v \<Rightarrow> od_del d k @ [(k, v)])"

text \<open>\<open>d[k] = v\<close>: an existing key keeps its position, a new key goes to the end.\<close>

definition od_assign :: "('k, 'v) odict \<Rightarrow> 'k \<Rightarrow> 'v \<Rightarrow> ('k, 'v) odict" where
  "od_assign d k v =
     (if od_contains d k then map (\<lambda>e. if fst e = k then (k, v) else e) d
      else d @ [(k, v)])"

text \<open>\<open>next(iter(d))\<close>: the first key, \<open>StopIteration\<close> on an empty dictionary.\<close>

definition od_first_key :: "('k, 'v) odict \<Rightarrow> py_error + 'k" where
  "od_first_key d = (case d of [] \<Rightarrow> Inl StopIteration | e # _ \<Rightarrow> Inr (fst e))"

subsection \<open>\<^verbatim>\<open>class LRUCache\<close>\<close>

text \<open>
  The clock \<open>time.time()\<close> is read once by \<open>get\<close> and once by \<open>set\<close>; the value
  read is the argument \<open>now\<close>. Times are real numbers.
\<close>

record 'v LRUCache =
  cache :: "(string, 'v \<times> real) odict"
  max_size :: int
  ttl :: int
  hits :: int
  misses :: int

definition LRUCache_init :: "int \<Rightarrow> int \<Rightarrow> 'v LRUCache" where
  "LRUCache_init ms t = \<lparr>cache = [], max_size = ms, ttl = t, hits = 0, misses = 0\<rparr>"

definition is_expired :: "'v LRUCache \<Rightarrow> real \<Rightarrow> real \<Rightarrow> bool" where
  "is_expired c now timestamp = (now - timestamp > real_of_int (ttl c))"

definition LRU_get :: "'v LRUCache \<Rightarrow> string \<Rightarrow> real \<Rightarrow> 'v option \<times> 'v LRUCache" where
  "LRU_get c key now =
     (case map_of (cache c) key of
        None \<Rightarrow> (None, c\<lparr>misses := misses c + 1\<rparr>)
      | Some (val, timestamp) \<Rightarrow>
          if is_expired c now timestamp
          then (None, c\<lparr>cache := od_del (cache c) key, misses := misses c + 1\<rparr>)
          else (Some val, c\<lparr>cache := od_move_to_end (cache c) key, hits := hits c + 1\<rparr>))"

definition LRU_set :: "'v LRUCache \<Rightarrow> string \<Rightarrow> 'v \<Rightarrow> real \<Rightarrow> py_error + 'v LRUCache" where
  "LRU_set c key val now =
     (if od_contains (cache c) key
      then Inr (c\<lparr>cache := od_assign (od_move_to_end (cache c) key) key (val, now)\<rparr>)
      else if int (length (cache c)) \<ge> max_size c
      then (case od_first_key (cache c) of
              Inl e \<Rightarrow> Inl e
            | Inr oldest_key \<Rightarrow>
                Inr (c\<lparr>cache := od_assign (od_del (cache c) oldest_key) key (val, now)\<rparr>))
      else Inr (c\<lparr>cache := od_assign (cache c) key (val, now)\<rparr>))"

definition LRU_delete :: "'v LRUCache \<Rightarrow> string \<Rightarrow> 'v LRUCache" where
  "LRU_delete c key =
     (if od_contains (cache c) key then c\<lparr>cache := od_del (cache c) key\<rparr> else c)"

definition LRU_clear :: "'v LRUCache \<Rightarrow> 'v LRUCache" where
  "LRU_clear c = c\<lparr>cache := [], hits := 0, misses := 0\<rparr>"

text \<open>
  A caller's sequence of operations. An operation that raises leaves the cache as it
  was (\<open>set\<close> raises before it mutates anything) and the caller goes on.
\<close>

datatype 'v cache_op =
    Get string real
  | Set string 'v real
  | Delete string
  | Clear

fun step :: "'v LRUCache \<Rightarrow> 'v cache_op \<Rightarrow> 'v LRUCache" where
  "step c (Get k now) = snd (LRU_get c k now)"
| "step c (Set k v now) = (case LRU_set c k v now of Inl e \<Rightarrow> c | Inr c' \<Rightarrow> c')"
| "step c (Delete k) = LRU_delete c k"
| "step c Clear = LRU_clear c"

definition run_ops :: "'v LRUCache \<Rightarrow> 'v cache_op list \<Rightarrow> 'v LRUCache" where
  "run_ops c ops = foldl step c ops"

text \<open>Whether an operation is a \<open>set\<close> on the key \<open>k\<close>.\<close>

fun sets_key :: "string \<Rightarrow> 'v cache_op \<Rightarrow> bool" where
  "sets_key k (Set k' v now) = (k' = k)"
| "sets_key k _ = False"

text \<open>The keys stored, least recently used first.\<close>

definition keys_of :: "'v LRUCache \<Rightarrow> string list" where
  "keys_of c = map fst (cache c)"

text \<open>
  The keys an operation touches: a \<open>get\<close> that hits and a \<open>set\<close> that returns.
  \<open>touch_log\<close> is the history of touches of a sequence of operations, oldest first.
\<close>

fun touched :: "'v LRUCache \<Rightarrow> 'v cache_op \<Rightarrow> string list" where
  "touched c (Get k now) = (case fst (LRU_get c k now) of None \<Rightarrow> [] | Some _ \<Rightarrow> [k])"
| "touched c (Set k v now) = (case LRU_set c k v now of Inl _ \<Rightarrow> [] | Inr _ \<Rightarrow> [k])"
| "touched c (Delete k) = []"
| "touched c Clear = []"

fun touch_log :: "'v LRUCache \<Rightarrow> 'v cache_op list \<Rightarrow> string list" where
  "touch_log c [] = []"
| "touch_log c (x # xs) = touched c x @ touch_log (step c x) xs"

text \<open>
  The position of the last touch of a key in a history, counted from 1; it is 0 for a key
  that was never touched. A list of keys is in recency order when these positions
  increase along it, so that its first key is the one touched longest ago.
\<close>

definition last_touch :: "string list \<Rightarrow> string \<Rightarrow> nat" where
  "last_touch hist k = length (dropWhile (\<lambda>x. x \<noteq> k) (rev hist))"

definition recency_ordered :: "string list \<Rightarrow> string list \<Rightarrow> bool" where
  "recency_ordered hist ks = sorted_wrt (\<lambda>a b. last_touch hist a < last_touch hist b) ks"

subsection \<open>\<^verbatim>\<open>class TranscriptionCache\<close>\<close>

type_synonym bytes = string

record Segment =
  seg_start :: real
  seg_end :: real
  seg_text :: string

record TranscriptionResult =
  transcription :: string
  language :: string
  processing_time :: real
  audio_duration :: real
  segments_count :: int
  segments :: "Segment list"
  request_id :: string

text \<open>
  The wrapped \<open>LRUCache\<close> is the field \<open>self.cache\<close> of the source, here \<open>lru\<close>.
  \<open>hashlib.sha256(b).hexdigest()\<close> is the parameter \<open>sha256_hex\<close>.
\<close>

record TranscriptionCache =
  lru :: "TranscriptionResult LRUCache"

definition TranscriptionCache_init :: "int \<Rightarrow> int \<Rightarrow> TranscriptionCache" where
  "TranscriptionCache_init ms t = \<lparr>lru = LRUCache_init ms t\<rparr>"

definition generate_key :: "(bytes \<Rightarrow> string) \<Rightarrow> bytes \<Rightarrow> string \<Rightarrow> string \<Rightarrow> string" where
  "generate_key sha256_hex audio_bytes lang mode =
     mode @ '':'' @ lang @ '':'' @ sha256_hex audio_bytes"

definition TC_get ::
  "(bytes \<Rightarrow> string) \<Rightarrow> TranscriptionCache \<Rightarrow> bytes \<Rightarrow> string \<Rightarrow> string \<Rightarrow> real
     \<Rightarrow> TranscriptionResult option \<times> TranscriptionCache" where
  "TC_get sha256_hex tc audio_bytes lang mode now =
     (let key = generate_key sha256_hex audio_bytes lang mode;
          (result, c') = LRU_get (lru tc) key now
      in (result, tc\<lparr>lru := c'\<rparr>))"

definition TC_set ::
  "(bytes \<Rightarrow> string) \<Rightarrow> TranscriptionCache \<Rightarrow> bytes \<Rightarrow> string \<Rightarrow> string
     \<Rightarrow> TranscriptionResult \<Rightarrow> real \<Rightarrow> py_error + TranscriptionCache" where
  "TC_set sha256_hex tc audio_bytes lang mode result now =
     (let key = generate_key sha256_hex audio_bytes lang mode
      in case LRU_set (lru tc) key result now of
           Inl e \<Rightarrow> Inl e
         | Inr c' \<Rightarrow> Inr (tc\<lparr>lru := c'\<rparr>))"

text \<open>The global instance \<open>transcription_cache\<close> of the module.\<close>

definition transcription_cache :: TranscriptionCache where
  "transcription_cache = TranscriptionCache_init 50 3600"

section \<open>The metrics collector of \<^verbatim>\<open>backend/monitoring.py\<close>\<close>

text \<open>
  A record of each kind, with the values of the dictionary's keys in the order of the
  source: for a transcription \<open>timestamp\<close>, \<open>request_id\<close>, \<open>language\<close>,
  \<open>audio_duration\<close>, \<open>processing_time\<close>, \<open>segments_count\<close>, \<open>mode\<close>, \<open>success\<close>,
  \<open>error\<close> and \<open>rtf\<close>.
\<close>

datatype metric =
    TranscriptionMetric string string string real real int string bool "string option" real
  | RequestMetric string string string int real
  | ErrorMetric string string string "string option"

record MetricsCollector =
  metrics :: "string \<rightharpoonup> metric list"
  counters :: "string \<rightharpoonup> int"
  start_time :: real

definition MetricsCollector_init :: "real \<Rightarrow> MetricsCollector" where
  "MetricsCollector_init now = \<lparr>metrics = Map.empty, counters = Map.empty, start_time = now\<rparr>"

text \<open>
  The records of a kind, \<open>self.metrics.get(kind, [])\<close>; then
  \<open>self.metrics[kind].append(m)\<close> and \<open>self.counters[name] += 1\<close> on the default
  dictionaries.
\<close>

definition metrics_get :: "MetricsCollector \<Rightarrow> string \<Rightarrow> metric list" where
  "metrics_get mc kind = (case metrics mc kind of None \<Rightarrow> [] | Some ms \<Rightarrow> ms)"

definition append_metric :: "MetricsCollector \<Rightarrow> string \<Rightarrow> metric \<Rightarrow> MetricsCollector" where
  "append_metric mc kind m = mc\<lparr>metrics := (metrics mc)(kind \<mapsto> metrics_get mc kind @ [m])\<rparr>"

definition incr_counter :: "MetricsCollector \<Rightarrow> string \<Rightarrow> MetricsCollector" where
  "incr_counter mc name =
     mc\<lparr>counters := (counters mc)(name \<mapsto> (case counters mc name of None \<Rightarrow> 0 | Some n \<Rightarrow> n) + 1)\<rparr>"

text \<open>The argument \<open>stamp\<close> is \<open>datetime.utcnow().isoformat()\<close>.\<close>

definition record_transcription ::
  "MetricsCollector \<Rightarrow> string \<Rightarrow> string \<Rightarrow> string \<Rightarrow> real \<Rightarrow> real \<Rightarrow> int \<Rightarrow> string \<Rightarrow> bool
     \<Rightarrow> string option \<Rightarrow> MetricsCollector" where
  "record_transcription mc stamp rid lang audio_dur proc_time seg_count mode success err =
     (let m = TranscriptionMetric stamp rid lang audio_dur proc_time seg_count mode success err
                (if audio_dur > 0 then proc_time / audio_dur else 0);
          mc1 = append_metric mc ''transcriptions'' m;
          mc2 = incr_counter mc1 (''transcriptions_'' @ mode)
      in if success then incr_counter mc2 ''transcriptions_success''
         else incr_counter mc2 ''transcriptions_failed'')"

definition record_request ::
  "MetricsCollector \<Rightarrow> string \<Rightarrow> string \<Rightarrow> string \<Rightarrow> int \<Rightarrow> real \<Rightarrow> MetricsCollector" where
  "record_request mc stamp endpoint method status_code duration =
     (let m = RequestMetric stamp endpoint method status_code duration;
          mc1 = append_metric mc ''requests'' m;
          mc2 = incr_counter mc1 (''requests_'' @ endpoint)
      in incr_counter mc2 (''status_'' @ py_str_int status_code))"

definition record_error ::
  "MetricsCollector \<Rightarrow> string \<Rightarrow> string \<Rightarrow> string \<Rightarrow> string option \<Rightarrow> MetricsCollector" where
  "record_error mc stamp error_type error_message rid =
     (let m = ErrorMetric stamp error_type error_message rid;
          mc1 = append_metric mc ''errors'' m
      in incr_counter mc1 (''errors_'' @ error_type))"

text \<open>\<open>self.metrics.get(metric_type, [])[-limit:]\<close>\<close>

definition get_recent_metrics :: "MetricsCollector \<Rightarrow> string \<Rightarrow> int \<Rightarrow> metric list" where
  "get_recent_metrics mc metric_type limit =
     py_slice_from (metrics_get mc metric_type) (- limit)"

definition reset :: "MetricsCollector \<Rightarrow> real \<Rightarrow> MetricsCollector" where
  "reset mc now = mc\<lparr>metrics := Map.empty, counters := Map.empty, start_time := now\<rparr>"

section \<open>Transcription in \<^verbatim>\<open>backend/omni_modal.py\<close>\<close>

subsection \<open>The collaborators\<close>

text \<open>A speech span of the voice-activity detector, in samples at 16 kHz.\<close>

record Span =
  span_start :: int
  span_end :: int

text \<open>
  What the ASR pipeline is given: the temporary copy of the upload (its suffix is the
  file name's and its content the uploaded bytes) or a chunk written as a WAV file
  (samples and sample rate).
\<close>

datatype 's audio_input =
    UploadedFile string bytes
  | ChunkWav "'s list" int

text \<open>
  The libraries the code calls, each a function of what it is given. A library call
  that raises returns \<open>Inl\<close> of the exception's message. The ASR pipeline returns the
  texts and the wall-clock time the call took. \<open>'w\<close> is the 16 kHz waveform of the
  voice-activity detector, \<open>'s\<close> a frame of the native-rate samples.
\<close>

record ('w, 's) collaborators =
  librosa_get_duration :: "string \<Rightarrow> bytes \<Rightarrow> string + real"
  read_audio :: "string \<Rightarrow> bytes \<Rightarrow> string + 'w"
  get_speech_timestamps :: "'w \<Rightarrow> string + Span list"
  sf_read :: "string \<Rightarrow> bytes \<Rightarrow> string + 's list \<times> int"
  pipeline_transcribe ::
    "'s audio_input list \<Rightarrow> string list \<Rightarrow> nat option \<Rightarrow> string + string list \<times> real"
  supported_languages :: "string list"
  magic_from_buffer :: "bytes \<Rightarrow> string + string"
  splitext :: "string \<Rightarrow> string \<times> string"
  str_lower :: "string \<Rightarrow> string"
  sha256_hexdigest :: "bytes \<Rightarrow> string"

subsection \<open>\<^verbatim>\<open>OmniASRModel.transcribe\<close>\<close>

definition transcribe ::
  "('w, 's) collaborators \<Rightarrow> bytes \<Rightarrow> string \<Rightarrow> string \<Rightarrow> string
     \<Rightarrow> py_error + TranscriptionResult" where
  "transcribe env audio_bytes filename lang rid =
     (case librosa_get_duration env filename audio_bytes of
        Inl e \<Rightarrow> Inl (HTTPException 400 (''Invalid audio file: '' @ e))
      | Inr duration \<Rightarrow>
          (case pipeline_transcribe env [UploadedFile filename audio_bytes] [lang] None of
             Inl e \<Rightarrow> Inl (HTTPException 500 (''Transcription failed: '' @ e))
           | Inr (transcriptions, process_time) \<Rightarrow>
               (case transcriptions of
                  [] \<Rightarrow> Inl IndexError
                | t0 # _ \<Rightarrow>
                    Inr \<lparr>transcription = t0,
                         language = lang,
                         processing_time = py_round process_time 3,
                         audio_duration = py_round duration 2,
                         segments_count = 1,
                         segments = [\<lparr>seg_start = 0, seg_end = py_round duration 2,
                                      seg_text = t0\<rparr>],
                         request_id = rid\<rparr>)))"

subsection \<open>\<^verbatim>\<open>OmniASRModel.transcribe_large\<close>\<close>

text \<open>The times of a span in seconds, and the bounds of its slice of the native samples.\<close>

definition chunk_times :: "Span \<Rightarrow> real \<times> real" where
  "chunk_times ts = (real_of_int (span_start ts) / 16000, real_of_int (span_end ts) / 16000)"

definition chunk_bounds :: "int \<Rightarrow> Span \<Rightarrow> int \<times> int" where
  "chunk_bounds samplerate ts =
     (let ratio = real_of_int samplerate / 16000
      in (py_int (real_of_int (span_start ts) * ratio),
          py_int (real_of_int (span_end ts) * ratio)))"

definition make_chunk :: "'s list \<Rightarrow> int \<Rightarrow> Span \<Rightarrow> 's audio_input \<times> (real \<times> real)" where
  "make_chunk data samplerate ts =
     (let (start_sample, end_sample) = chunk_bounds samplerate ts;
          chunk_data = py_slice data start_sample end_sample
      in (ChunkWav chunk_data samplerate, chunk_times ts))"

text \<open>
  The loop \<open>for i, text in enumerate(chunk_results)\<close> with its two accumulators;
  \<open>chunk_metadata[i]\<close> raises \<open>IndexError\<close> beyond the chunks.
\<close>

fun combine_loop ::
  "(real \<times> real) list \<Rightarrow> nat \<Rightarrow> string list \<Rightarrow> string list \<Rightarrow> Segment list
     \<Rightarrow> py_error + string list \<times> Segment list" where
  "combine_loop chunk_metadata i [] full_text_parts detailed_segments =
     Inr (full_text_parts, detailed_segments)"
| "combine_loop chunk_metadata i (text # rest) full_text_parts detailed_segments =
     (let text' = py_strip text
      in if text' \<noteq> []
         then (if i < length chunk_metadata
               then combine_loop chunk_metadata (i + 1) rest
                      (full_text_parts @ [text'])
                      (detailed_segments @
                         [\<lparr>seg_start = py_round (fst (chunk_metadata ! i)) 3,
                           seg_end = py_round (snd (chunk_metadata ! i)) 3,
                           seg_text = text'\<rparr>])
               else Inl IndexError)
         else combine_loop chunk_metadata (i + 1) rest full_text_parts detailed_segments)"

definition transcribe_large ::
  "('w, 's) collaborators \<Rightarrow> bytes \<Rightarrow> string \<Rightarrow> string \<Rightarrow> string
     \<Rightarrow> py_error + TranscriptionResult" where
  "transcribe_large env audio_bytes filename lang rid =
     (case read_audio env filename audio_bytes of
        Inl e \<Rightarrow> Inl (HTTPException 400 (''Invalid audio file: '' @ e))
      | Inr wav \<Rightarrow>
          (case get_speech_timestamps env wav of
             Inl e \<Rightarrow> Inl (OtherException e)
           | Inr speech_timestamps \<Rightarrow>
               if speech_timestamps = []
               then transcribe env audio_bytes filename lang rid
               else
                 (case sf_read env filename audio_bytes of
                    Inl e \<Rightarrow> Inl (OtherException e)
                  | Inr (data, samplerate) \<Rightarrow>
                      (let chunks = map (make_chunk data samplerate) speech_timestamps;
                           chunk_paths = map fst chunks;
                           chunk_metadata = map snd chunks
                       in case pipeline_transcribe env chunk_paths
                                 (replicate (length chunk_paths) lang) (Some 4) of
                            Inl e \<Rightarrow> Inl (HTTPException 500 (''Transcription failed: '' @ e))
                          | Inr (chunk_results, proc_time) \<Rightarrow>
                              (case combine_loop chunk_metadata 0 chunk_results [] [] of
                                 Inl e \<Rightarrow> Inl e
                               | Inr (full_text_parts, detailed_segments) \<Rightarrow>
                                   if samplerate = 0 then Inl ZeroDivisionError
                                   else
                                     Inr \<lparr>transcription = py_join '' '' full_text_parts,
                                          language = lang,
                                          processing_time = py_round proc_time 3,
                                          audio_duration =
                                            py_round (real (length data) / real_of_int samplerate) 2,
                                          segments_count = int (length detailed_segments),
                                          segments = detailed_segments,
                                          request_id = rid\<rparr>)))))"

subsection \<open>The endpoint \<^verbatim>\<open>transcribe_large_file\<close>\<close>

definition MAX_FILE_SIZE :: int where
  "MAX_FILE_SIZE = 100 * 1024 * 1024"

definition ALLOWED_MIME_TYPES :: "string list" where
  "ALLOWED_MIME_TYPES =
     [''audio/mpeg'', ''audio/mp3'', ''audio/wav'', ''audio/wave'', ''audio/x-wav'',
      ''audio/mp4'', ''audio/webm'', ''audio/ogg'', ''video/mp4'', ''video/webm'']"

definition validate_file_size :: "int \<Rightarrow> py_error + unit" where
  "validate_file_size file_size =
     (if file_size > MAX_FILE_SIZE
      then Inl (HTTPException 413 ''File too large. Maximum size is 100MB'')
      else if file_size = 0 then Inl (HTTPException 400 ''Empty file uploaded'')
      else Inr ())"

text \<open>
  The \<open>HTTPException\<close> raised for a MIME type that is not allowed is raised inside the
  \<open>try\<close>, so the \<open>except Exception\<close> clause catches it as it catches a failure of the
  detection: both end in the check of the extension.
\<close>

definition validate_file_type :: "('w, 's) collaborators \<Rightarrow> bytes \<Rightarrow> string \<Rightarrow> py_error + unit" where
  "validate_file_type env file_bytes filename =
     (let by_extension =
            (let ext = str_lower env (snd (splitext env filename))
             in if ext \<in> set [''.mp3'', ''.wav'', ''.mp4'', ''.webm'', ''.ogg'', ''.m4a'', ''.flac'']
                then Inr ()
                else Inl (HTTPException 400 (''Invalid file extension: '' @ ext)))
      in case magic_from_buffer env file_bytes of
           Inl e \<Rightarrow> by_extension
         | Inr mime \<Rightarrow> if mime \<in> set ALLOWED_MIME_TYPES then Inr () else by_extension)"

definition generate_request_id :: "('w, 's) collaborators \<Rightarrow> real \<Rightarrow> bytes \<Rightarrow> string" where
  "generate_request_id env now content =
     (let content_hash = take 16 (sha256_hexdigest env content);
          timestamp = py_slice_from (py_str_int (py_int (now * 1000))) (- 8)
      in content_hash @ ''-'' @ timestamp)"

definition validate_language :: "('w, 's) collaborators \<Rightarrow> string \<Rightarrow> bool" where
  "validate_language env lang = (lang \<in> set (supported_languages env))"

text \<open>\<open>x or d\<close> for an optional string: \<open>None\<close> and the empty string give \<open>d\<close>.\<close>

definition str_or :: "string option \<Rightarrow> string \<Rightarrow> string" where
  "str_or x d = (case x of None \<Rightarrow> d | Some s \<Rightarrow> if s = [] then d else s)"

text \<open>
  The state of the worker process that outlives a request: the module-level instances
  \<open>transcription_cache\<close> of \<open>cache.py\<close> and \<open>metrics_collector\<close> of \<open>monitoring.py\<close>.
\<close>

record process_state =
  g_transcription_cache :: TranscriptionCache
  g_metrics_collector :: MetricsCollector

text \<open>
  The handler of \<open>POST /transcribe_large\<close>, once the API key and the rate limit have
  let the request through. It is given the uploaded bytes, the upload's file name and
  the language, and the clock \<open>now\<close>.
\<close>

definition transcribe_large_file ::
  "('w, 's) collaborators \<Rightarrow> process_state \<Rightarrow> real \<Rightarrow> bytes \<Rightarrow> string option \<Rightarrow> string
     \<Rightarrow> (py_error + TranscriptionResult) \<times> process_state" where
  "transcribe_large_file env st now content filename lang =
     (let rid = generate_request_id env now content
      in case validate_file_size (int (length content)) of
           Inl e \<Rightarrow> (Inl e, st)
         | Inr _ \<Rightarrow>
             (case validate_file_type env content (str_or filename ''audio'') of
                Inl e \<Rightarrow> (Inl e, st)
              | Inr _ \<Rightarrow>
                  if \<not> validate_language env lang
                  then (Inl (HTTPException 400
                          (''Unsupported language: '' @ lang @
                           ''. Use /languages endpoint to get supported languages.'')), st)
                  else
                    (case transcribe_large env content (str_or filename ''audio.wav'') lang rid of
                       Inr result \<Rightarrow> (Inr result, st)
                     | Inl (HTTPException code detail) \<Rightarrow> (Inl (HTTPException code detail), st)
                     | Inl e \<Rightarrow>
                         (Inl (HTTPException 500 (''Transcription failed: '' @ err_str e)), st))))"

subsection \<open>Reference definitions and example collaborators\<close>

text \<open>
  What the post-processing of the chunked path is to produce from the chunks' times and
  the engine's texts, position by position: a chunk whose text strips to the empty
  string is left out, a retained chunk gives a segment with its own times rounded to
  three decimals and its stripped text.
\<close>

definition retained_segments :: "(real \<times> real) list \<Rightarrow> string list \<Rightarrow> Segment list" where
  "retained_segments chunk_metadata texts =
     map (\<lambda>p. \<lparr>seg_start = py_round (fst (fst p)) 3, seg_end = py_round (snd (fst p)) 3,
               seg_text = py_strip (snd p)\<rparr>)
         (filter (\<lambda>p. py_strip (snd p) \<noteq> []) (zip chunk_metadata texts))"

text \<open>
  Collaborators for the examples: an upload \<open>a.wav\<close> of duration \<open>dur\<close> whose
  detected spans are \<open>spans\<close> and whose native samples are \<open>data\<close> at rate \<open>sr\<close>;
  the engine answers \<open>whole\<close> for the uploaded file and \<open>texts\<close> for a batch of
  chunks, in one second.
\<close>

definition example_env ::
  "real \<Rightarrow> Span list \<Rightarrow> nat list \<Rightarrow> int \<Rightarrow> string \<Rightarrow> string list \<Rightarrow> (unit, nat) collaborators" where
  "example_env dur spans data sr whole texts =
     \<lparr>librosa_get_duration = (\<lambda>filename b. Inr dur),
      read_audio = (\<lambda>filename b. Inr ()),
      get_speech_timestamps = (\<lambda>w. Inr spans),
      sf_read = (\<lambda>filename b. Inr (data, sr)),
      pipeline_transcribe =
        (\<lambda>inputs langs batch_size.
           case inputs of [UploadedFile f b] \<Rightarrow> Inr ([whole], 1) | _ \<Rightarrow> Inr (texts, 1)),
      supported_languages = [''eng_Latn'', ''arb_Arab''],
      magic_from_buffer = (\<lambda>b. Inr ''audio/wav''),
      splitext = (\<lambda>f. if f = ''a.wav'' then (''a'', ''.wav'') else (f, [])),
      str_lower = (\<lambda>s. s),
      sha256_hexdigest = (\<lambda>b. ''9f86d081884c7d659a2feaa0c55ad015a3bf4f1b2b0b822cd15d6c15b0f00a08'')\<rparr>"

text \<open>
  A result computed earlier and a result the engine of \<open>example_env\<close> computes now; the
  state of a process whose cache holds the earlier result for the upload \<open>RIFF\<close>, the
  language \<open>eng_Latn\<close> and the mode \<open>large\<close>, stored at the time 1699999000; and the
  state of a process that has just started.
\<close>

definition example_cached_result :: TranscriptionResult where
  "example_cached_result =
     \<lparr>transcription = ''cached text'', language = ''eng_Latn'', processing_time = 2,
      audio_duration = 5, segments_count = 1,
      segments = [\<lparr>seg_start = 0, seg_end = 5, seg_text = ''cached text''\<rparr>],
      request_id = ''earlier''\<rparr>"

definition example_fresh_result :: TranscriptionResult where
  "example_fresh_result =
     \<lparr>transcription = ''hello world'', language = ''eng_Latn'', processing_time = 1,
      audio_duration = 5, segments_count = 1,
      segments = [\<lparr>seg_start = 0, seg_end = 5, seg_text = ''hello world''\<rparr>],
      request_id = ''9f86d081884c7d65-00000000''\<rparr>"

definition example_state_cached :: process_state where
  "example_state_cached =
     \<lparr>g_transcription_cache =
        \<lparr>lru = \<lparr>cache =
                   [(''large:eng_Latn:9f86d081884c7d659a2feaa0c55ad015a3bf4f1b2b0b822cd15d6c15b0f00a08'',
                     (example_cached_result, 1699999000))],
                 max_size = 50, ttl = 3600, hits = 0, misses = 0\<rparr>\<rparr>,
      g_metrics_collector = MetricsCollector_init 1699990000\<rparr>"

definition example_state_started :: process_state where
  "example_state_started =
     \<lparr>g_transcription_cache = transcription_cache,
      g_metrics_collector = MetricsCollector_init 1699990000\<rparr>"

section \<open>Properties of the LRU cache\<close>

lemma od_first_key_nonempty: "d \<noteq> [] \<Longrightarrow> \<exists>k. od_first_key d = Inr k"
  by (cases d) (simp_all add: od_first_key_def)

lemma od_first_key_empty: "od_first_key [] = Inl StopIteration"
  by (simp add: od_first_key_def)

lemma map_of_Some_key: "map_of d k = Some v \<Longrightarrow> k \<in> fst ` set d"
  by (metis domI dom_map_of_conv_image_fst)

lemma in_set_key: "(k, v) \<in> set d \<Longrightarrow> k \<in> fst ` set d"
  by force

lemma map_of_od_del: "map_of (od_del d k) k' = (if k' = k then None else map_of d k')"
  unfolding od_del_def by (induction d) auto

lemma keys_od_del: "map fst (od_del d k) = removeAll k (map fst d)"
  unfolding od_del_def by (induction d) auto

lemma od_contains_iff: "od_contains d k \<longleftrightarrow> k \<in> set (map fst d)"
  unfolding od_contains_def by (simp add: map_of_eq_None_iff)

lemma map_of_od_move_to_end: "map_of (od_move_to_end d k) k' = map_of d k'"
  unfolding od_move_to_end_def
  by (auto simp: map_of_od_del map_add_def split: option.splits)

lemma keys_od_move_to_end:
  "map fst (od_move_to_end d k) =
     (if k \<in> set (map fst d) then removeAll k (map fst d) @ [k] else map fst d)"
  unfolding od_move_to_end_def
  by (auto simp: keys_od_del map_of_eq_None_iff split: option.splits dest: map_of_Some_key)

lemma map_of_od_assign:
  "map_of (od_assign d k v) k' = (if k' = k then Some v else map_of d k')"
proof (cases "od_contains d k")
  case True
  have "map_of (map (\<lambda>e. if fst e = k then (k, v) else e) d) k' =
        (if k' = k then (if k \<in> set (map fst d) then Some v else None) else map_of d k')"
    by (induction d) (auto dest: in_set_key)
  with True show ?thesis by (simp add: od_assign_def od_contains_iff)
next
  case False
  then show ?thesis
    by (auto simp: od_assign_def od_contains_def map_add_def split: option.splits)
qed

lemma keys_od_assign:
  "map fst (od_assign d k v) = (if k \<in> set (map fst d) then map fst d else map fst d @ [k])"
proof -
  have "map fst (map (\<lambda>e. if fst e = k then (k, v) else e) d) = map fst d"
    by (induction d) auto
  then show ?thesis by (simp add: od_assign_def od_contains_iff)
qed

lemma length_od_assign_present:
  "k \<in> set (map fst d) \<Longrightarrow> length (od_assign d k v) = length d"
  by (simp add: od_assign_def od_contains_iff)

text \<open>What each operation does to the list of keys.\<close>

lemma keys_of_get:
  "keys_of (snd (LRU_get c k now)) =
     (case fst (LRU_get c k now) of
        None \<Rightarrow> removeAll k (keys_of c)
      | Some _ \<Rightarrow> removeAll k (keys_of c) @ [k])"
  unfolding LRU_get_def keys_of_def
  by (auto simp: keys_od_del keys_od_move_to_end map_of_eq_None_iff
           split: option.splits dest: map_of_Some_key)

lemma keys_of_set:
  assumes "LRU_set c k v now = Inr c'"
  shows "keys_of c' =
     (if k \<in> set (keys_of c) then removeAll k (keys_of c) @ [k]
      else if int (length (cache c)) \<ge> max_size c
      then removeAll (hd (keys_of c)) (keys_of c) @ [k]
      else keys_of c @ [k])"
  using assms unfolding LRU_set_def keys_of_def
  by (auto simp: keys_od_del keys_od_move_to_end keys_od_assign od_contains_iff od_first_key_def
           split: if_splits sum.splits list.splits)

lemma max_size_step [simp]: "max_size (step c x) = max_size c"
  by (cases x) (auto simp: LRU_get_def LRU_set_def LRU_delete_def LRU_clear_def
                     split: option.splits sum.splits if_splits)

lemma ttl_step [simp]: "ttl (step c x) = ttl c"
  by (cases x) (auto simp: LRU_get_def LRU_set_def LRU_delete_def LRU_clear_def
                     split: option.splits sum.splits if_splits)

lemma run_ops_Nil [simp]: "run_ops c [] = c"
  by (simp add: run_ops_def)

lemma run_ops_Cons [simp]: "run_ops c (x # xs) = run_ops (step c x) xs"
  by (simp add: run_ops_def)

lemma run_ops_snoc [simp]: "run_ops c (xs @ [x]) = step (run_ops c xs) x"
  by (simp add: run_ops_def)

lemma max_size_run_ops [simp]: "max_size (run_ops c xs) = max_size c"
  by (induction xs arbitrary: c) simp_all

lemma ttl_run_ops [simp]: "ttl (run_ops c xs) = ttl c"
  by (induction xs arbitrary: c) simp_all

lemma LRU_set_raises_empty:
  "cache c = [] \<Longrightarrow> max_size c \<le> 0 \<Longrightarrow> LRU_set c k v now = Inl StopIteration"
  by (simp add: LRU_set_def od_contains_def od_first_key_def)

lemma step_keeps_empty:
  "cache c = [] \<Longrightarrow> max_size c \<le> 0 \<Longrightarrow> cache (step c x) = []"
  by (cases x) (simp_all add: LRU_set_raises_empty LRU_get_def LRU_delete_def LRU_clear_def
                  od_contains_def)

lemma run_ops_keeps_empty:
  "cache c = [] \<Longrightarrow> max_size c \<le> 0 \<Longrightarrow> cache (run_ops c xs) = []"
  by (induction xs arbitrary: c) (simp_all add: step_keeps_empty)

lemma LRU_set_succeeds:
  assumes "1 \<le> max_size c"
  shows "\<exists>c'. LRU_set c k v now = Inr c'"
proof (cases "od_contains (cache c) k")
  case True
  then show ?thesis by (simp add: LRU_set_def)
next
  case False
  show ?thesis
  proof (cases "int (length (cache c)) \<ge> max_size c")
    case True
    with assms have "cache c \<noteq> []" by auto
    then obtain k0 where "od_first_key (cache c) = Inr k0"
      using od_first_key_nonempty by blast
    with False True show ?thesis by (simp add: LRU_set_def)
  next
    case False
    with \<open>\<not> od_contains (cache c) k\<close> show ?thesis by (simp add: LRU_set_def)
  qed
qed

lemma map_of_after_set:
  "LRU_set c k v now = Inr c' \<Longrightarrow> map_of (cache c') k = Some (v, now)"
  by (auto simp: LRU_set_def map_of_od_assign split: if_splits sum.splits)

lemma keys_lost_by_set:
  assumes "LRU_set c k v now = Inr c'"
  shows "set (keys_of c) - set (keys_of c') \<subseteq> {hd (keys_of c)}"
  using keys_of_set [OF assms] by (auto split: if_splits)

lemma evicts_at_most_one:
  assumes "LRU_set c k v now = Inr c'"
  shows "card (set (keys_of c) - set (keys_of c')) \<le> 1"
proof -
  have "card (set (keys_of c) - set (keys_of c')) \<le> card {hd (keys_of c)}"
    by (rule card_mono) (simp_all add: keys_lost_by_set [OF assms])
  then show ?thesis by simp
qed

text \<open>
  Claim C10. With \<open>max_size \<ge> 1\<close>, \<open>set\<close> returns from every state of the cache: the key
  then holds the new value with the time of the call, and at most one of the keys stored
  before is gone. A cache constructed with \<open>max_size = 0\<close> stays empty whatever is
  called on it, and every \<open>set\<close> on it, the first one included, raises
  \<open>StopIteration\<close>: \<open>next(iter(self.cache))\<close> on the empty dictionary.
\<close>

theorem set_succeeds_unless_capacity_zero:
  "(1 \<le> max_size c \<longrightarrow>
      (\<exists>c'. LRU_set c k v now = Inr c' \<and> map_of (cache c') k = Some (v, now) \<and>
            card (set (keys_of c) - set (keys_of c')) \<le> 1)) \<and>
   LRU_set (run_ops (LRUCache_init 0 t) ops) k v now = Inl StopIteration"
proof (intro conjI impI)
  assume "1 \<le> max_size c"
  from LRU_set_succeeds [OF this, of k v now]
  obtain c' where c': "LRU_set c k v now = Inr c'" ..
  show "\<exists>c'. LRU_set c k v now = Inr c' \<and> map_of (cache c') k = Some (v, now) \<and>
            card (set (keys_of c) - set (keys_of c')) \<le> 1"
    using c' map_of_after_set [OF c'] evicts_at_most_one [OF c'] by simp
next
  have "cache (run_ops (LRUCache_init 0 t) ops) = []"
    by (rule run_ops_keeps_empty) (simp_all add: LRUCache_init_def)
  then show "LRU_set (run_ops (LRUCache_init 0 t) ops) k v now = Inl StopIteration"
    by (rule LRU_set_raises_empty) (simp add: LRUCache_init_def)
qed

theorem set_succeeds_unless_capacity_zero_witness:
  "1 \<le> max_size \<lparr>cache = [(''a'', (1::nat, 0))], max_size = 1, ttl = 3600, hits = 0, misses = 0\<rparr> \<and>
   LRU_set \<lparr>cache = [(''a'', (1::nat, 0))], max_size = 1, ttl = 3600, hits = 0, misses = 0\<rparr>
       ''b'' 2 5 =
     Inr \<lparr>cache = [(''b'', (2, 5))], max_size = 1, ttl = 3600, hits = 0, misses = 0\<rparr> \<and>
   LRU_set (run_ops (LRUCache_init 0 3600) [Get ''a'' 1]) ''a'' (7::nat) 2 = Inl StopIteration"
  using set_succeeds_unless_capacity_zero
          [where c = "\<lparr>cache = [(''a'', (1::nat, 0))], max_size = 1, ttl = 3600, hits = 0, misses = 0\<rparr>"
             and k = "''b''" and v = 2 and now = 5 and t = 3600 and ops = "[]"]
        set_succeeds_unless_capacity_zero
          [where c = "\<lparr>cache = [(''a'', (1::nat, 0))], max_size = 1, ttl = 3600, hits = 0, misses = 0\<rparr>"
             and k = "''a''" and v = 7 and now = 2 and t = 3600 and ops = "[Get ''a'' 1]"]
  by (simp add: LRU_set_def od_contains_def od_first_key_def od_del_def od_assign_def)

lemma last_touch_snoc:
  "last_touch (hist @ [x]) k = (if x = k then Suc (length hist) else last_touch hist k)"
  by (simp add: last_touch_def)

lemma last_touch_le: "last_touch hist k \<le> length hist"
  unfolding last_touch_def
  by (metis length_dropWhile_le length_rev)

lemma touch_log_snoc:
  "touch_log c (xs @ [x]) = touch_log c xs @ touched (run_ops c xs) x"
  by (induction xs arbitrary: c) simp_all

lemma recency_ordered_removeAll:
  "recency_ordered hist ks \<Longrightarrow> recency_ordered hist (removeAll h ks)"
  unfolding recency_ordered_def removeAll_filter_not_eq by (rule sorted_wrt_filter)

lemma recency_ordered_touch:
  assumes "recency_ordered hist ks"
  shows "recency_ordered (hist @ [k]) (removeAll k ks @ [k])"
proof -
  have old: "sorted_wrt (\<lambda>a b. last_touch hist a < last_touch hist b) (removeAll k ks)"
    using recency_ordered_removeAll [OF assms] by (simp add: recency_ordered_def)
  have "sorted_wrt (\<lambda>a b. last_touch (hist @ [k]) a < last_touch (hist @ [k]) b) (removeAll k ks)"
    by (rule sorted_wrt_mono_rel [OF _ old]) (auto simp: last_touch_snoc)
  moreover have "\<forall>a\<in>set (removeAll k ks). last_touch (hist @ [k]) a < last_touch (hist @ [k]) k"
    using last_touch_le [of hist] by (auto simp: last_touch_snoc less_Suc_eq_le)
  ultimately show ?thesis
    by (simp add: recency_ordered_def sorted_wrt_append)
qed

lemma recency_ordered_insert:
  "recency_ordered hist ks \<Longrightarrow> k \<notin> set ks \<Longrightarrow> recency_ordered (hist @ [k]) (ks @ [k])"
  using recency_ordered_touch [of hist ks k] by simp

lemma get_hit_present:
  "fst (LRU_get c k now) = Some v \<Longrightarrow> k \<in> set (keys_of c)"
  by (auto simp: LRU_get_def keys_of_def split: option.splits if_splits dest: map_of_Some_key)

lemma set_full_nonempty:
  assumes "LRU_set c k v now = Inr c'" and "k \<notin> set (keys_of c)"
    and "max_size c \<le> int (length (cache c))"
  shows "cache c \<noteq> []"
  using assms
  by (auto simp: LRU_set_def keys_of_def od_contains_iff od_first_key_def split: if_splits)

lemma keys_of_delete: "keys_of (LRU_delete c k) = removeAll k (keys_of c)"
  by (simp add: LRU_delete_def keys_of_def keys_od_del od_contains_iff)

lemma keys_of_clear: "keys_of (LRU_clear c) = []"
  by (simp add: LRU_clear_def keys_of_def)

lemma length_keys_of: "length (keys_of c) = length (cache c)"
  by (simp add: keys_of_def)

lemma length_removeAll_snoc:
  "k \<in> set ks \<Longrightarrow> length (removeAll k ks @ [k]) \<le> length ks"
  using length_removeAll_less [of k ks] by simp

text \<open>One operation keeps the keys unique, in recency order, touched, and within the capacity.\<close>

lemma step_distinct: "distinct (keys_of c) \<Longrightarrow> distinct (keys_of (step c x))"
proof (cases x)
  case (Get k now)
  assume "distinct (keys_of c)"
  then show ?thesis using Get
    by (auto simp: keys_of_get distinct_removeAll split: option.splits)
next
  case (Set k v now)
  assume d: "distinct (keys_of c)"
  show ?thesis
  proof (cases "LRU_set c k v now")
    case (Inl e)
    with d Set show ?thesis by simp
  next
    case (Inr c')
    from keys_of_set [OF Inr] d have "distinct (keys_of c')"
      by (auto simp: distinct_removeAll split: if_splits)
    with Inr Set show ?thesis by simp
  qed
next
  case (Delete k)
  assume "distinct (keys_of c)"
  then show ?thesis using Delete by (simp add: keys_of_delete distinct_removeAll)
next
  case Clear
  then show ?thesis by (simp add: keys_of_clear)
qed

lemma step_recency:
  assumes "recency_ordered hist (keys_of c)"
  shows "recency_ordered (hist @ touched c x) (keys_of (step c x))"
proof (cases x)
  case (Get k now)
  show ?thesis
  proof (cases "fst (LRU_get c k now)")
    case None
    with Get assms show ?thesis by (simp add: keys_of_get recency_ordered_removeAll)
  next
    case (Some v)
    with Get assms show ?thesis by (simp add: keys_of_get recency_ordered_touch)
  qed
next
  case (Set k v now)
  show ?thesis
  proof (cases "LRU_set c k v now")
    case (Inl e)
    with Set assms show ?thesis by simp
  next
    case (Inr c')
    have "recency_ordered (hist @ [k]) (keys_of c')"
    proof (cases "k \<in> set (keys_of c)")
      case True
      with keys_of_set [OF Inr] assms show ?thesis by (simp add: recency_ordered_touch)
    next
      case False
      then show ?thesis
        using keys_of_set [OF Inr] assms
        by (auto intro!: recency_ordered_insert recency_ordered_removeAll)
    qed
    with Inr Set show ?thesis by simp
  qed
next
  case (Delete k)
  with assms show ?thesis by (simp add: keys_of_delete recency_ordered_removeAll)
next
  case Clear
  then show ?thesis by (simp add: keys_of_clear recency_ordered_def)
qed

lemma step_touched_keys:
  assumes "set (keys_of c) \<subseteq> set hist"
  shows "set (keys_of (step c x)) \<subseteq> set (hist @ touched c x)"
proof (cases x)
  case (Get k now)
  with assms show ?thesis by (auto simp: keys_of_get split: option.splits)
next
  case (Set k v now)
  show ?thesis
  proof (cases "LRU_set c k v now")
    case (Inl e)
    with Set assms show ?thesis by auto
  next
    case (Inr c')
    from keys_of_set [OF Inr] assms have "set (keys_of c') \<subseteq> set (hist @ [k])"
      by (auto split: if_splits)
    with Inr Set show ?thesis by simp
  qed
next
  case (Delete k)
  with assms show ?thesis by (auto simp: keys_of_delete)
next
  case Clear
  then show ?thesis by (simp add: keys_of_clear)
qed

lemma step_size:
  assumes "int (length (cache c)) \<le> max_size c"
  shows "int (length (cache (step c x))) \<le> max_size c"
proof (cases x)
  case (Get k now)
  show ?thesis
  proof (cases "fst (LRU_get c k now)")
    case None
    have "int (length (keys_of (step c x))) \<le> int (length (keys_of c))"
      using None Get keys_of_get [of c k now] by simp
    with assms show ?thesis by (simp add: length_keys_of)
  next
    case (Some v)
    from get_hit_present [OF Some] have "length (removeAll k (keys_of c) @ [k]) \<le> length (keys_of c)"
      by (rule length_removeAll_snoc)
    with Some Get assms keys_of_get [of c k now] show ?thesis
      by (simp add: length_keys_of [symmetric])
  qed
next
  case (Set k v now)
  show ?thesis
  proof (cases "LRU_set c k v now")
    case (Inl e)
    with Set assms show ?thesis by simp
  next
    case (Inr c')
    have "int (length (keys_of c')) \<le> max_size c"
    proof (cases "k \<in> set (keys_of c)")
      case True
      with keys_of_set [OF Inr] length_removeAll_snoc [OF True] assms show ?thesis
        by (simp add: length_keys_of [symmetric])
    next
      case False
      show ?thesis
      proof (cases "max_size c \<le> int (length (cache c))")
        case True
        from set_full_nonempty [OF Inr False True] have "keys_of c \<noteq> []"
          by (simp add: keys_of_def)
        then have "hd (keys_of c) \<in> set (keys_of c)"
          by (rule hd_in_set)
        from length_removeAll_snoc [OF this] keys_of_set [OF Inr] False True assms
        show ?thesis by (simp add: length_keys_of [symmetric])
      next
        case notfull: False
        with keys_of_set [OF Inr] False show ?thesis
          by (simp add: length_keys_of [symmetric])
      qed
    qed
    with Inr Set show ?thesis by (simp add: length_keys_of)
  qed
next
  case (Delete k)
  have "int (length (keys_of (step c x))) \<le> int (length (keys_of c))"
    using Delete keys_of_delete [of c k] by simp
  with assms show ?thesis by (simp add: length_keys_of)
next
  case Clear
  with assms show ?thesis by (simp add: LRU_clear_def)
qed

lemma max_size_init [simp]: "max_size (LRUCache_init ms t) = ms"
  by (simp add: LRUCache_init_def)

lemma ttl_init [simp]: "ttl (LRUCache_init ms t) = t"
  by (simp add: LRUCache_init_def)

lemma run_ops_invariant:
  assumes "0 \<le> ms"
  shows "int (length (cache (run_ops (LRUCache_init ms t) ops))) \<le> ms \<and>
         distinct (keys_of (run_ops (LRUCache_init ms t) ops)) \<and>
         recency_ordered (touch_log (LRUCache_init ms t) ops)
           (keys_of (run_ops (LRUCache_init ms t) ops)) \<and>
         set (keys_of (run_ops (LRUCache_init ms t) ops)) \<subseteq>
           set (touch_log (LRUCache_init ms t) ops)"
proof (induction ops rule: rev_induct)
  case Nil
  from assms(1) show ?case
    by (simp add: LRUCache_init_def keys_of_def recency_ordered_def)
next
  case (snoc x xs)
  let ?c = "run_ops (LRUCache_init ms t) xs"
  have ms: "max_size ?c = ms" by simp
  from snoc step_size [of ?c x] step_distinct [of ?c x]
       step_recency [of "touch_log (LRUCache_init ms t) xs" ?c x]
       step_touched_keys [of ?c "touch_log (LRUCache_init ms t) xs" x]
  show ?case by (simp add: touch_log_snoc ms)
qed

lemma get_hit_keys:
  "LRU_get c k now = (Some v, c') \<Longrightarrow> keys_of c' = removeAll k (keys_of c) @ [k]"
  using keys_of_get [of c k now] by simp

lemma recency_ordered_hd:
  assumes "recency_ordered hist ks" and "k' \<in> set ks"
  shows "last_touch hist (hd ks) \<le> last_touch hist k'"
proof (cases ks)
  case Nil
  with assms show ?thesis by simp
next
  case (Cons a as)
  with assms show ?thesis by (auto simp: recency_ordered_def less_imp_le)
qed

lemma removeAll_hd_distinct: "distinct ks \<Longrightarrow> removeAll (hd ks) ks = tl ks"
  by (cases ks) simp_all

lemma eviction_scenario:
  assumes "k1 \<noteq> k2" and "k1 \<noteq> k3" and "k2 \<noteq> k3" and "t3 - t1 \<le> real_of_int t'"
  shows "keys_of (run_ops (LRUCache_init 2 t')
                   [Set k1 v1 t1, Set k2 v2 t2, Get k1 t3, Set k3 v3 t4]) = [k1, k3]"
  using assms
  by (simp add: LRUCache_init_def keys_of_def LRU_set_def LRU_get_def is_expired_def
        od_contains_def od_assign_def od_del_def od_move_to_end_def od_first_key_def)

text \<open>
  Claim C3. Take a cache constructed with a capacity \<open>ms \<ge> 0\<close> and any sequence of
  \<open>get\<close>, \<open>set\<close>, \<open>delete\<close> and \<open>clear\<close> calls on it; \<open>c\<close> is the cache after them and
  \<open>hist\<close> the history of the keys touched (by a \<open>get\<close> that hit or a \<open>set\<close> that
  returned). Then
  \<^item> the number of stored entries is at most \<open>max_size\<close>;
  \<^item> the stored keys are in recency order: each has been touched, and they are listed by
    their last touch, the one touched longest ago first;
  \<^item> a \<open>get\<close> that hits moves its key to the most recently used end and leaves the other
    keys in their order;
  \<^item> a \<open>set\<close> that returns puts its key at the most recently used end: a stored key is
    moved there, a new key is appended when there is room, and when the cache is full
    exactly the first key is removed, whose last touch is the oldest of all stored keys;
  \<^item> with \<open>max_size = 2\<close>, three different keys and \<open>k1\<close> not expired at the \<open>get\<close>,
    \<open>set(k1); set(k2); get(k1); set(k3)\<close> leaves \<open>k1\<close> and \<open>k3\<close>: \<open>k2\<close> was evicted.
\<close>

theorem lru_capacity_and_recency:
  assumes "0 \<le> ms"
    and "c = run_ops (LRUCache_init ms t) ops"
    and "hist = touch_log (LRUCache_init ms t) ops"
  shows "int (length (cache c)) \<le> max_size c \<and>
         recency_ordered hist (keys_of c) \<and> set (keys_of c) \<subseteq> set hist \<and>
         (\<forall>k now v c'. LRU_get c k now = (Some v, c') \<longrightarrow>
            keys_of c' = removeAll k (keys_of c) @ [k]) \<and>
         (\<forall>k v now c'. LRU_set c k v now = Inr c' \<longrightarrow>
            last (keys_of c') = k \<and>
            (k \<in> set (keys_of c) \<longrightarrow> keys_of c' = removeAll k (keys_of c) @ [k]) \<and>
            (k \<notin> set (keys_of c) \<and> int (length (cache c)) < max_size c \<longrightarrow>
               keys_of c' = keys_of c @ [k]) \<and>
            (k \<notin> set (keys_of c) \<and> max_size c \<le> int (length (cache c)) \<longrightarrow>
               keys_of c \<noteq> [] \<and> keys_of c' = tl (keys_of c) @ [k] \<and>
               (\<forall>k'\<in>set (keys_of c).
                  last_touch hist (hd (keys_of c)) \<le> last_touch hist k'))) \<and>
         (\<forall>k1 k2 k3 v1 v2 v3 t1 t2 t3 t4 t'.
            k1 \<noteq> k2 \<and> k1 \<noteq> k3 \<and> k2 \<noteq> k3 \<and> t3 - t1 \<le> real_of_int t' \<longrightarrow>
            keys_of (run_ops (LRUCache_init 2 t')
                       [Set k1 v1 t1, Set k2 v2 t2, Get k1 t3, Set k3 v3 t4]) = [k1, k3])"
proof -
  from run_ops_invariant [OF assms(1), of t ops] assms(2,3)
  have size: "int (length (cache c)) \<le> ms" and dist: "distinct (keys_of c)"
    and rec: "recency_ordered hist (keys_of c)" and sub: "set (keys_of c) \<subseteq> set hist"
    by simp_all
  have ms: "max_size c = ms" using assms(2) by simp
  have set_ok: "last (keys_of c') = k \<and>
            (k \<in> set (keys_of c) \<longrightarrow> keys_of c' = removeAll k (keys_of c) @ [k]) \<and>
            (k \<notin> set (keys_of c) \<and> int (length (cache c)) < max_size c \<longrightarrow>
               keys_of c' = keys_of c @ [k]) \<and>
            (k \<notin> set (keys_of c) \<and> max_size c \<le> int (length (cache c)) \<longrightarrow>
               keys_of c \<noteq> [] \<and> keys_of c' = tl (keys_of c) @ [k] \<and>
               (\<forall>k'\<in>set (keys_of c).
                  last_touch hist (hd (keys_of c)) \<le> last_touch hist k'))"
    if s: "LRU_set c k v now = Inr c'" for k v now c'
  proof (intro conjI impI)
    show "last (keys_of c') = k"
      using keys_of_set [OF s] by (simp split: if_splits)
    show "keys_of c' = removeAll k (keys_of c) @ [k]" if "k \<in> set (keys_of c)"
      using keys_of_set [OF s] that by simp
    show "keys_of c' = keys_of c @ [k]"
      if "k \<notin> set (keys_of c) \<and> int (length (cache c)) < max_size c"
      using keys_of_set [OF s] that by simp
    show "keys_of c \<noteq> []"
      if "k \<notin> set (keys_of c) \<and> max_size c \<le> int (length (cache c))"
      using set_full_nonempty [OF s] that by (simp add: keys_of_def)
    show "keys_of c' = tl (keys_of c) @ [k]"
      if "k \<notin> set (keys_of c) \<and> max_size c \<le> int (length (cache c))"
      using keys_of_set [OF s] that removeAll_hd_distinct [OF dist] by simp
    show "\<forall>k'\<in>set (keys_of c). last_touch hist (hd (keys_of c)) \<le> last_touch hist k'"
      using recency_ordered_hd [OF rec] by blast
  qed
  have get_all: "\<forall>k now v c'. LRU_get c k now = (Some v, c') \<longrightarrow>
            keys_of c' = removeAll k (keys_of c) @ [k]"
    by (intro allI impI) (rule get_hit_keys)
  have set_all: "\<forall>k v now c'. LRU_set c k v now = Inr c' \<longrightarrow>
            last (keys_of c') = k \<and>
            (k \<in> set (keys_of c) \<longrightarrow> keys_of c' = removeAll k (keys_of c) @ [k]) \<and>
            (k \<notin> set (keys_of c) \<and> int (length (cache c)) < max_size c \<longrightarrow>
               keys_of c' = keys_of c @ [k]) \<and>
            (k \<notin> set (keys_of c) \<and> max_size c \<le> int (length (cache c)) \<longrightarrow>
               keys_of c \<noteq> [] \<and> keys_of c' = tl (keys_of c) @ [k] \<and>
               (\<forall>k'\<in>set (keys_of c).
                  last_touch hist (hd (keys_of c)) \<le> last_touch hist k'))"
    by (intro allI impI) (rule set_ok)
  have scenario: "\<forall>k1 k2 k3 v1 v2 v3 t1 t2 t3 t4 t'.
            k1 \<noteq> k2 \<and> k1 \<noteq> k3 \<and> k2 \<noteq> k3 \<and> t3 - t1 \<le> real_of_int t' \<longrightarrow>
            keys_of (run_ops (LRUCache_init 2 t')
                       [Set k1 v1 t1, Set k2 v2 t2, Get k1 t3, Set k3 v3 t4]) = [k1, k3]"
    by (intro allI impI) (rule eviction_scenario, simp_all)
  from size ms have size': "int (length (cache c)) \<le> max_size c" by simp
  show ?thesis
    by (rule conjI [OF size' conjI [OF rec conjI [OF sub conjI [OF get_all
          conjI [OF set_all scenario]]]]])
qed

theorem lru_capacity_and_recency_witness:
  "(0::int) \<le> 2 \<and>
   run_ops (LRUCache_init 2 3600) [Set ''k1'' (1::nat) 0, Set ''k2'' 2 1, Get ''k1'' 2] =
     \<lparr>cache = [(''k2'', (2, 1)), (''k1'', (1, 0))], max_size = 2, ttl = 3600,
      hits = 1, misses = 0\<rparr> \<and>
   touch_log (LRUCache_init 2 3600) [Set ''k1'' (1::nat) 0, Set ''k2'' 2 1, Get ''k1'' 2] =
     [''k1'', ''k2'', ''k1''] \<and>
   recency_ordered [''k1'', ''k2'', ''k1''] [''k2'', ''k1''] \<and>
   LRU_get \<lparr>cache = [(''k2'', (2::nat, 1)), (''k1'', (1, 0))], max_size = 2, ttl = 3600,
            hits = 1, misses = 0\<rparr> ''k2'' 3 =
     (Some 2, \<lparr>cache = [(''k1'', (1, 0)), (''k2'', (2, 1))], max_size = 2, ttl = 3600,
               hits = 2, misses = 0\<rparr>) \<and>
   LRU_set \<lparr>cache = [(''k2'', (2::nat, 1)), (''k1'', (1, 0))], max_size = 2, ttl = 3600,
            hits = 1, misses = 0\<rparr> ''k3'' 3 3 =
     Inr \<lparr>cache = [(''k1'', (1, 0)), (''k3'', (3, 3))], max_size = 2, ttl = 3600,
          hits = 1, misses = 0\<rparr> \<and>
   last_touch [''k1'', ''k2'', ''k1''] ''k2'' = 2 \<and>
   last_touch [''k1'', ''k2'', ''k1''] ''k1'' = 3 \<and>
   keys_of (run_ops (LRUCache_init 2 3600)
              [Set ''k1'' (1::nat) 0, Set ''k2'' 2 1, Get ''k1'' 2, Set ''k3'' 3 3]) =
     [''k1'', ''k3'']"
  using lru_capacity_and_recency
          [of 2 "run_ops (LRUCache_init 2 3600) [Set ''k1'' (1::nat) 0, Set ''k2'' 2 1, Get ''k1'' 2]"
              3600 "[Set ''k1'' (1::nat) 0, Set ''k2'' 2 1, Get ''k1'' 2]"
              "touch_log (LRUCache_init 2 3600) [Set ''k1'' (1::nat) 0, Set ''k2'' 2 1, Get ''k1'' 2]"]
  by (simp add: LRUCache_init_def keys_of_def LRU_set_def LRU_get_def is_expired_def
        od_contains_def od_assign_def od_del_def od_move_to_end_def od_first_key_def
        recency_ordered_def last_touch_def)

text \<open>An entry stays as it was stored until a \<open>set\<close> on its key, or it is gone.\<close>

lemma map_of_get_other:
  "map_of (cache (snd (LRU_get c k now))) k' \<in> {None, map_of (cache c) k'}"
  by (auto simp: LRU_get_def map_of_od_del map_of_od_move_to_end split: option.splits)

lemma map_of_set_other:
  "LRU_set c k v now = Inr c' \<Longrightarrow> k' \<noteq> k \<Longrightarrow> map_of (cache c') k' \<in> {None, map_of (cache c) k'}"
  by (auto simp: LRU_set_def map_of_od_del map_of_od_move_to_end map_of_od_assign
           split: if_splits sum.splits)

lemma map_of_step:
  "\<not> sets_key k x \<Longrightarrow> map_of (cache (step c x)) k \<in> {None, map_of (cache c) k}"
proof (cases x)
  case (Get k' now)
  then show ?thesis using map_of_get_other [of c k' now k] by simp
next
  case (Set k' v now)
  assume "\<not> sets_key k x"
  with Set have "k \<noteq> k'" by simp
  then show ?thesis using Set map_of_set_other [of c k' v now _ k]
    by (cases "LRU_set c k' v now") auto
next
  case (Delete k')
  then show ?thesis by (simp add: LRU_delete_def map_of_od_del)
next
  case Clear
  then show ?thesis by (simp add: LRU_clear_def)
qed

lemma map_of_run_ops:
  "\<forall>x\<in>set ops. \<not> sets_key k x \<Longrightarrow>
     map_of (cache (run_ops c ops)) k \<in> {None, map_of (cache c) k}"
proof (induction ops arbitrary: c)
  case Nil
  then show ?case by simp
next
  case (Cons x xs)
  from Cons.prems have "\<not> sets_key k x" by simp
  then have "map_of (cache (step c x)) k \<in> {None, map_of (cache c) k}"
    by (rule map_of_step)
  moreover from Cons have
    "map_of (cache (run_ops (step c x) xs)) k \<in> {None, map_of (cache (step c x)) k}"
    by simp
  ultimately show ?case by auto
qed

lemma get_fresh:
  assumes "map_of (cache c) k = Some (v, ts)" and "now - ts \<le> real_of_int (ttl c)"
  shows "LRU_get c k now =
           (Some v, c\<lparr>cache := od_move_to_end (cache c) k, hits := hits c + 1\<rparr>)"
  using assms by (simp add: LRU_get_def is_expired_def)

lemma get_stale:
  assumes "map_of (cache c) k = Some (v, ts)" and "real_of_int (ttl c) < now - ts"
  shows "LRU_get c k now =
           (None, c\<lparr>cache := od_del (cache c) k, misses := misses c + 1\<rparr>)"
  using assms by (simp add: LRU_get_def is_expired_def)

lemma ttl_set: "LRU_set c k v now = Inr c' \<Longrightarrow> ttl c' = ttl c"
  by (auto simp: LRU_set_def split: if_splits sum.splits)

lemma TC_set_stores:
  assumes "TC_set sha tc A L M R t0 = Inr tc1"
  shows "map_of (cache (lru tc1)) (generate_key sha A L M) = Some (R, t0) \<and>
         ttl (lru tc1) = ttl (lru tc)"
proof -
  from assms obtain c' where c': "LRU_set (lru tc) (generate_key sha A L M) R t0 = Inr c'"
    and tc1: "tc1 = tc\<lparr>lru := c'\<rparr>"
    by (auto simp: TC_set_def Let_def split: sum.splits)
  from map_of_after_set [OF c'] ttl_set [OF c'] tc1 show ?thesis by simp
qed

text \<open>
  Claim C4. Store \<open>R\<close> for \<open>(A, L, M)\<close> at time \<open>t0\<close>, then let any operations
  run on the cache that do not store under the same key again, and suppose the key is still
  there afterwards (no eviction, \<open>delete\<close>, \<open>clear\<close> or expiry removed it). A \<open>get\<close>
  for \<open>(A, L, M)\<close> at time \<open>t1\<close> then returns \<open>R\<close> and counts a hit when the age
  \<open>t1 - t0\<close> is at most the TTL; when the age exceeds the TTL it returns nothing,
  removes the entry and counts a miss.
\<close>

theorem cached_result_until_expiry:
  assumes "TC_set sha tc A L M R t0 = Inr tc1"
    and "tc2 = tc1\<lparr>lru := run_ops (lru tc1) ops\<rparr>"
    and "\<forall>x\<in>set ops. \<not> sets_key (generate_key sha A L M) x"
    and "od_contains (cache (lru tc2)) (generate_key sha A L M)"
  shows "(t1 - t0 \<le> real_of_int (ttl (lru tc)) \<longrightarrow>
            fst (TC_get sha tc2 A L M t1) = Some R \<and>
            hits (lru (snd (TC_get sha tc2 A L M t1))) = hits (lru tc2) + 1 \<and>
            misses (lru (snd (TC_get sha tc2 A L M t1))) = misses (lru tc2)) \<and>
         (real_of_int (ttl (lru tc)) < t1 - t0 \<longrightarrow>
            fst (TC_get sha tc2 A L M t1) = None \<and>
            \<not> od_contains (cache (lru (snd (TC_get sha tc2 A L M t1)))) (generate_key sha A L M) \<and>
            misses (lru (snd (TC_get sha tc2 A L M t1))) = misses (lru tc2) + 1 \<and>
            hits (lru (snd (TC_get sha tc2 A L M t1))) = hits (lru tc2))"
proof -
  let ?key = "generate_key sha A L M"
  from TC_set_stores [OF assms(1)]
  have stored: "map_of (cache (lru tc1)) ?key = Some (R, t0)"
    and ttl1: "ttl (lru tc1) = ttl (lru tc)" by simp_all
  from map_of_run_ops [OF assms(3), of "lru tc1"] stored assms(2,4)
  have entry: "map_of (cache (lru tc2)) ?key = Some (R, t0)"
    by (auto simp: od_contains_def)
  have ttl2: "ttl (lru tc2) = ttl (lru tc)"
    using assms(2) ttl1 by simp
  show ?thesis
  proof (intro conjI impI)
    assume fresh: "t1 - t0 \<le> real_of_int (ttl (lru tc))"
    from get_fresh [OF entry, of t1] fresh ttl2
    have g: "LRU_get (lru tc2) ?key t1 =
               (Some R, (lru tc2)\<lparr>cache := od_move_to_end (cache (lru tc2)) ?key,
                                    hits := hits (lru tc2) + 1\<rparr>)" by simp
    show "fst (TC_get sha tc2 A L M t1) = Some R"
      and "hits (lru (snd (TC_get sha tc2 A L M t1))) = hits (lru tc2) + 1"
      and "misses (lru (snd (TC_get sha tc2 A L M t1))) = misses (lru tc2)"
      by (simp_all add: TC_get_def g)
  next
    assume stale: "real_of_int (ttl (lru tc)) < t1 - t0"
    from get_stale [OF entry, of t1] stale ttl2
    have g: "LRU_get (lru tc2) ?key t1 =
               (None, (lru tc2)\<lparr>cache := od_del (cache (lru tc2)) ?key,
                                 misses := misses (lru tc2) + 1\<rparr>)" by simp
    show "fst (TC_get sha tc2 A L M t1) = None"
      and "\<not> od_contains (cache (lru (snd (TC_get sha tc2 A L M t1)))) ?key"
      and "misses (lru (snd (TC_get sha tc2 A L M t1))) = misses (lru tc2) + 1"
      and "hits (lru (snd (TC_get sha tc2 A L M t1))) = hits (lru tc2)"
      by (simp_all add: TC_get_def g od_contains_def map_of_od_del)
  qed
qed

theorem cached_result_until_expiry_witness:
  "(let sha = (\<lambda>b. ''ab12'');
        R = \<lparr>transcription = ''hi'', language = ''eng_Latn'', processing_time = 1, audio_duration = 2, segments_count = 1, segments = [\<lparr>seg_start = 0, seg_end = 2, seg_text = ''hi''\<rparr>], request_id = ''r1''\<rparr>;
        R' = \<lparr>transcription = ''yo'', language = ''eng_Latn'', processing_time = 1, audio_duration = 3, segments_count = 1, segments = [\<lparr>seg_start = 0, seg_end = 3, seg_text = ''yo''\<rparr>], request_id = ''r2''\<rparr>;
        ops = [Set ''large:eng_Latn:ffff'' R' 200, Get ''large:eng_Latn:0000'' 300];
        tc1 = \<lparr>lru = \<lparr>cache = [(''large:eng_Latn:ab12'', (R, 100))], max_size = 50,
                         ttl = 3600, hits = 0, misses = 0\<rparr>\<rparr>;
        tc2 = tc1\<lparr>lru := run_ops (lru tc1) ops\<rparr>
    in TC_set sha transcription_cache ''RIFF'' ''eng_Latn'' ''large'' R 100 = Inr tc1 \<and>
       (\<forall>x\<in>set ops. \<not> sets_key (generate_key sha ''RIFF'' ''eng_Latn'' ''large'') x) \<and>
       od_contains (cache (lru tc2)) (generate_key sha ''RIFF'' ''eng_Latn'' ''large'') \<and>
       (1000::real) - 100 \<le> real_of_int (ttl (lru transcription_cache)) \<and>
       fst (TC_get sha tc2 ''RIFF'' ''eng_Latn'' ''large'' 1000) = Some R \<and>
       real_of_int (ttl (lru transcription_cache)) < (5000::real) - 100 \<and>
       fst (TC_get sha tc2 ''RIFF'' ''eng_Latn'' ''large'' 5000) = None \<and>
       misses (lru (snd (TC_get sha tc2 ''RIFF'' ''eng_Latn'' ''large'' 5000))) = 2)"
proof -
  define sha :: "bytes \<Rightarrow> string" where "sha = (\<lambda>b. ''ab12'')"
  define R where "R = \<lparr>transcription = ''hi'', language = ''eng_Latn'', processing_time = 1, audio_duration = 2, segments_count = 1, segments = [\<lparr>seg_start = 0, seg_end = 2, seg_text = ''hi''\<rparr>], request_id = ''r1''\<rparr>"
  define R' where "R' = \<lparr>transcription = ''yo'', language = ''eng_Latn'', processing_time = 1, audio_duration = 3, segments_count = 1, segments = [\<lparr>seg_start = 0, seg_end = 3, seg_text = ''yo''\<rparr>], request_id = ''r2''\<rparr>"
  define ops where "ops = [Set ''large:eng_Latn:ffff'' R' 200, Get ''large:eng_Latn:0000'' 300]"
  define tc1 where "tc1 = \<lparr>lru = \<lparr>cache = [(''large:eng_Latn:ab12'', (R, 100))], max_size = 50,
                         ttl = 3600, hits = 0, misses = 0\<rparr>\<rparr>"
  define tc2 where "tc2 = tc1\<lparr>lru := run_ops (lru tc1) ops\<rparr>"
  have key: "generate_key sha ''RIFF'' ''eng_Latn'' ''large'' = ''large:eng_Latn:ab12''"
    by (simp add: generate_key_def sha_def)
  have stored: "TC_set sha transcription_cache ''RIFF'' ''eng_Latn'' ''large'' R 100 = Inr tc1"
    by (simp add: TC_set_def key transcription_cache_def TranscriptionCache_init_def
          LRUCache_init_def LRU_set_def od_contains_def od_assign_def tc1_def)
  have no_set: "\<forall>x\<in>set ops. \<not> sets_key (generate_key sha ''RIFF'' ''eng_Latn'' ''large'') x"
    by (simp add: key ops_def)
  have lru2: "lru tc2 = \<lparr>cache = [(''large:eng_Latn:ab12'', (R, 100)),
                                  (''large:eng_Latn:ffff'', (R', 200))],
                         max_size = 50, ttl = 3600, hits = 0, misses = 1\<rparr>"
    by (simp add: tc2_def tc1_def ops_def LRU_set_def LRU_get_def od_contains_def od_assign_def)
  have still: "od_contains (cache (lru tc2)) (generate_key sha ''RIFF'' ''eng_Latn'' ''large'')"
    by (simp add: key lru2 od_contains_def)
  have ttl0: "ttl (lru transcription_cache) = 3600"
    by (simp add: transcription_cache_def TranscriptionCache_init_def)
  from cached_result_until_expiry [OF stored tc2_def no_set still, of 1000]
       cached_result_until_expiry [OF stored tc2_def no_set still, of 5000]
  have "fst (TC_get sha tc2 ''RIFF'' ''eng_Latn'' ''large'' 1000) = Some R"
    and "fst (TC_get sha tc2 ''RIFF'' ''eng_Latn'' ''large'' 5000) = None"
    and "misses (lru (snd (TC_get sha tc2 ''RIFF'' ''eng_Latn'' ''large'' 5000))) = 2"
    by (simp_all add: ttl0 lru2)
  with stored no_set still ttl0 show ?thesis
    unfolding Let_def sha_def [symmetric] R_def [symmetric] R'_def [symmetric]
      ops_def [symmetric] tc1_def [symmetric] tc2_def [symmetric]
    by simp
qed

section \<open>Properties of the metrics collector\<close>

lemma py_slice_from_last:
  assumes "0 < limit"
  shows "py_slice_from xs (- limit) = drop (length xs - min (nat limit) (length xs)) xs"
proof -
  have "py_slice_index (length xs) (- limit) = length xs - min (nat limit) (length xs)"
    using assms by (auto simp: py_slice_index_def min_def max_def)
  then show ?thesis by (simp add: py_slice_from_def)
qed

lemma py_slice_from_zero: "py_slice_from xs 0 = xs"
  by (simp add: py_slice_from_def py_slice_index_def)

text \<open>
  For a limit of at least 1, \<open>get_recent_metrics\<close> returns the last
  \<open>min(limit, n)\<close> of the \<open>n\<close> records of the kind, in the order they were appended.
\<close>

lemma recent_positive_limit:
  assumes "0 < limit"
  shows "get_recent_metrics mc kind limit =
           drop (length (metrics_get mc kind) - min (nat limit) (length (metrics_get mc kind)))
             (metrics_get mc kind) \<and>
         length (get_recent_metrics mc kind limit) =
           min (nat limit) (length (metrics_get mc kind))"
  using assms by (auto simp: get_recent_metrics_def py_slice_from_last)

text \<open>
  Claim C8. The claim asks \<open>recent(kind, limit)\<close> for the last \<open>min(limit, n)\<close> records
  for every limit from 0 on, so none for the limit 0. The slice \<open>[-limit:]\<close> is
  \<open>[0:]\<close> at the limit 0: after two errors were recorded,
  \<open>get_recent_metrics("errors", 0)\<close> returns both of them.
\<close>

theorem recent_limit_zero_returns_all:
  "get_recent_metrics
     (record_error (record_error (MetricsCollector_init 0) ''t1'' ''ValueError'' ''bad'' None)
        ''t2'' ''IOError'' ''worse'' None) ''errors'' 0 =
   [ErrorMetric ''t1'' ''ValueError'' ''bad'' None, ErrorMetric ''t2'' ''IOError'' ''worse'' None]"
  by (simp add: get_recent_metrics_def record_error_def append_metric_def incr_counter_def
        MetricsCollector_init_def metrics_get_def py_slice_from_zero)

section \<open>Properties of the transcription paths\<close>



lemma make_chunk_times: "snd (make_chunk data samplerate ts) = chunk_times ts"
  by (simp add: make_chunk_def split: prod.splits)









text \<open>Rounding is monotone, stays within half a unit, and fixes the multiples of the unit.\<close>

lemma round_half_even_mono:
  assumes "a \<le> b"
  shows "round_half_even a \<le> round_half_even b"
proof -
  from assms have fl: "\<lfloor>a\<rfloor> \<le> \<lfloor>b\<rfloor>" by (rule floor_mono)
  show ?thesis
  proof (cases "\<lfloor>a\<rfloor> = \<lfloor>b\<rfloor>")
    case True
    with assms show ?thesis by (auto simp: round_half_even_def Let_def)
  next
    case False
    with fl have "\<lfloor>a\<rfloor> + 1 \<le> \<lfloor>b\<rfloor>" by simp
    then show ?thesis by (auto simp: round_half_even_def Let_def)
  qed
qed

lemma py_round_mono: "x \<le> y \<Longrightarrow> py_round x n \<le> py_round y n"
proof -
  assume "x \<le> y"
  then have "x * 10 ^ n \<le> y * 10 ^ n" by simp
  from round_half_even_mono [OF this] show ?thesis
    unfolding py_round_def by (simp add: divide_right_mono)
qed

lemma round_half_even_of_int: "round_half_even (of_int k) = k"
  by (simp add: round_half_even_def)

lemma py_round_of_int: "py_round (of_int k / 10 ^ n) n = of_int k / 10 ^ n"
  by (simp add: py_round_def round_half_even_of_int)

lemma py_round_zero: "py_round 0 n = 0"
  by (simp add: py_round_def round_half_even_def)

lemma round_half_even_close: "\<bar>of_int (round_half_even a) - a\<bar> \<le> 1 / 2"
proof -
  have "of_int \<lfloor>a\<rfloor> \<le> a" and "a < of_int \<lfloor>a\<rfloor> + 1" by linarith+
  then show ?thesis
    by (auto simp: round_half_even_def Let_def abs_le_iff)
qed

lemma py_round_close: "\<bar>py_round x n - x\<bar> \<le> 1 / (2 * 10 ^ n)"
proof -
  let ?u = "(10::real) ^ n"
  let ?r = "real_of_int (round_half_even (x * ?u))"
  have u: "0 < ?u" by simp
  have "\<bar>?r - x * ?u\<bar> \<le> 1 / 2" by (rule round_half_even_close)
  then have "\<bar>?r - x * ?u\<bar> / ?u \<le> (1 / 2) / ?u"
    using u by (simp only: divide_right_mono less_imp_le)
  moreover have "\<bar>?r - x * ?u\<bar> / ?u = \<bar>?r / ?u - x\<bar>"
  proof -
    have "\<bar>?r - x * ?u\<bar> / ?u = \<bar>(?r - x * ?u) / ?u\<bar>"
      using u by (simp only: abs_divide abs_of_pos)
    also have "(?r - x * ?u) / ?u = ?r / ?u - x"
      using u by (simp add: diff_divide_distrib)
    finally show ?thesis .
  qed
  ultimately show ?thesis
    unfolding py_round_def by simp
qed

lemma py_round_strict:
  assumes "x + 2 / 10 ^ n \<le> y"
  shows "py_round x n < py_round y n"
proof -
  define u :: real where "u = 1 / (2 * 10 ^ n)"
  have u: "0 < u" by (simp add: u_def)
  have "2 / 10 ^ n = 4 * u" by (simp add: u_def)
  with assms have xy: "x + 4 * u \<le> y" by simp
  from py_round_close [of x n] py_round_close [of y n]
  have "\<bar>py_round x n - x\<bar> \<le> u" and "\<bar>py_round y n - y\<bar> \<le> u"
    by (simp_all only: u_def)
  with xy u show ?thesis by linarith
qed

lemma retained_Nil [simp]: "retained_segments [] texts = []"
  by (simp add: retained_segments_def)

lemma retained_Nil2 [simp]: "retained_segments meta [] = []"
  by (simp add: retained_segments_def)

lemma retained_Cons:
  "retained_segments (m # ms) (t # ts) =
     (if py_strip t \<noteq> []
      then \<lparr>seg_start = py_round (fst m) 3, seg_end = py_round (snd m) 3,
            seg_text = py_strip t\<rparr> # retained_segments ms ts
      else retained_segments ms ts)"
  by (simp add: retained_segments_def)

lemma combine_loop_result:
  assumes "combine_loop meta i texts parts segs = Inr (P, S)"
  shows "P = parts @ map seg_text (retained_segments (drop i meta) texts) \<and>
         S = segs @ retained_segments (drop i meta) texts"
  using assms
proof (induction texts arbitrary: i parts segs)
  case Nil
  then show ?case by simp
next
  case (Cons t ts)
  show ?case
  proof (cases "i < length meta")
    case True
    then have d: "drop i meta = meta ! i # drop (Suc i) meta"
      by (simp add: Cons_nth_drop_Suc)
    show ?thesis
    proof (cases "py_strip t = []")
      case True
      with Cons.prems have "combine_loop meta (Suc i) ts parts segs = Inr (P, S)"
        by (simp add: Let_def)
      from Cons.IH [OF this] True show ?thesis by (simp add: d retained_Cons)
    next
      case False
      with Cons.prems \<open>i < length meta\<close>
      have "combine_loop meta (Suc i) ts (parts @ [py_strip t])
              (segs @ [\<lparr>seg_start = py_round (fst (meta ! i)) 3,
                         seg_end = py_round (snd (meta ! i)) 3,
                         seg_text = py_strip t\<rparr>]) = Inr (P, S)"
        by (simp add: Let_def)
      from Cons.IH [OF this] False show ?thesis by (simp add: d retained_Cons)
    qed
  next
    case False
    then have d: "drop i meta = []" "drop (Suc i) meta = []" by simp_all
    from False Cons.prems have e: "py_strip t = []"
      by (auto simp: Let_def split: if_splits)
    with Cons.prems have "combine_loop meta (Suc i) ts parts segs = Inr (P, S)"
      by (simp add: Let_def)
    from Cons.IH [OF this] show ?thesis by (simp add: d)
  qed
qed

lemma retained_times:
  "s \<in> set (retained_segments meta texts) \<Longrightarrow>
     \<exists>m\<in>set meta. seg_start s = py_round (fst m) 3 \<and> seg_end s = py_round (snd m) 3"
proof (induction meta arbitrary: texts)
  case Nil
  then show ?case by simp
next
  case (Cons m ms)
  then show ?case
    by (cases texts) (auto simp: retained_Cons split: if_splits)
qed

lemma retained_sorted:
  "sorted (map fst meta) \<Longrightarrow> sorted (map seg_start (retained_segments meta texts))"
proof (induction meta arbitrary: texts)
  case Nil
  then show ?case by simp
next
  case (Cons m ms)
  show ?case
  proof (cases texts)
    case Nil
    then show ?thesis by simp
  next
    case (Cons t ts)
    from Cons.prems have tail: "sorted (map fst ms)" and low: "\<forall>m'\<in>set ms. fst m \<le> fst m'"
      by auto
    have "py_round (fst m) 3 \<le> seg_start s" if "s \<in> set (retained_segments ms ts)" for s
    proof -
      from retained_times [OF that] obtain m' where "m' \<in> set ms"
        and "seg_start s = py_round (fst m') 3" by blast
      with low show ?thesis by (simp add: py_round_mono)
    qed
    with Cons.IH [OF tail, of ts] Cons show ?thesis
      by (auto simp: retained_Cons)
  qed
qed

lemma transcribe_result:
  assumes "transcribe env b f l r = Inr res"
  shows "\<exists>d t. librosa_get_duration env f b = Inr d \<and>
           segments res = [\<lparr>seg_start = 0, seg_end = py_round d 2, seg_text = t\<rparr>] \<and>
           transcription res = t \<and> segments_count res = 1"
  using assms
  by (auto simp: transcribe_def split: sum.splits prod.splits list.splits)

lemma transcribe_large_chunked:
  assumes "transcribe_large env b f l r = Inr res"
    and "read_audio env f b = Inr wav"
    and "get_speech_timestamps env wav = Inr spans"
    and "spans \<noteq> []"
  shows "\<exists>texts. segments res = retained_segments (map chunk_times spans) texts \<and>
           transcription res = py_join '' '' (map seg_text (segments res)) \<and>
           segments_count res = int (length (segments res))"
proof -
  have meta: "map snd (map (make_chunk data samplerate) spans) = map chunk_times spans"
    for data :: "'b list" and samplerate
    by (simp add: make_chunk_times)
  from assms obtain data samplerate texts proc_time P S where
    loop: "combine_loop (map chunk_times spans) 0 texts [] [] = Inr (P, S)"
    and res: "res = \<lparr>transcription = py_join '' '' P, language = l,
                     processing_time = py_round proc_time 3,
                     audio_duration = py_round (real (length (data :: 'b list)) / real_of_int samplerate) 2,
                     segments_count = int (length S), segments = S, request_id = r\<rparr>"
    by (auto simp: transcribe_large_def meta Let_def simp del: map_map
             split: sum.splits prod.splits if_splits)
  from combine_loop_result [OF loop] res show ?thesis by auto
qed

lemma no_speech_fallback:
  "read_audio env f b = Inr wav \<Longrightarrow> get_speech_timestamps env wav = Inr [] \<Longrightarrow>
     transcribe_large env b f l r = transcribe env b f l r"
  by (simp add: transcribe_large_def)

lemma chunk_times_ordered:
  "span_start s \<le> span_end s \<Longrightarrow> fst (chunk_times s) \<le> snd (chunk_times s)"
  by (simp add: chunk_times_def divide_right_mono)

lemma chunk_times_apart:
  assumes "span_start s + 32 \<le> span_end s"
  shows "fst (chunk_times s) + 2 / 10 ^ 3 \<le> snd (chunk_times s)"
proof -
  from assms have "real_of_int (span_start s) + 32 \<le> real_of_int (span_end s)"
    by linarith
  then show ?thesis by (simp add: chunk_times_def field_simps)
qed

lemma sorted_chunk_times:
  "sorted (map span_start spans) \<Longrightarrow> sorted (map fst (map chunk_times spans))"
proof (induction spans)
  case Nil
  then show ?case by simp
next
  case (Cons s ss)
  then show ?case by (auto simp: chunk_times_def divide_right_mono)
qed

text \<open>
  What the code guarantees of its results. A result of the whole-file path has one
  segment: the count is 1, the transcript is the segment's text, and the segment runs
  from 0 to the duration rounded to two decimals, so it ends after it starts when the
  file lasts at least 0.01 s (it ends no earlier for any duration that is not negative).
  A result of the chunked path has the count of its segments and the space-joined texts
  of its segments as transcript; its segments are sorted by start when the detector's
  spans are; a segment ends no earlier than it starts when the spans do, and ends after
  it starts when every span is at least 32 samples (2 ms) long. Without detected speech
  the chunked path returns what the whole-file path returns.
\<close>

lemma result_invariants:
  "(transcribe env b f l r = Inr res \<longrightarrow>
      segments_count res = int (length (segments res)) \<and>
      transcription res = py_join '' '' (map seg_text (segments res)) \<and>
      sorted (map seg_start (segments res)) \<and>
      (\<forall>d. librosa_get_duration env f b = Inr d \<and> 0 \<le> d \<longrightarrow>
           (\<forall>s\<in>set (segments res). seg_start s \<le> seg_end s)) \<and>
      (\<forall>d. librosa_get_duration env f b = Inr d \<and> 1 / 100 \<le> d \<longrightarrow>
           (\<forall>s\<in>set (segments res). seg_start s < seg_end s))) \<and>
   (transcribe_large env b f l r = Inr res \<and> read_audio env f b = Inr wav \<and>
    get_speech_timestamps env wav = Inr spans \<and> spans \<noteq> [] \<longrightarrow>
      segments_count res = int (length (segments res)) \<and>
      transcription res = py_join '' '' (map seg_text (segments res)) \<and>
      (sorted (map span_start spans) \<longrightarrow> sorted (map seg_start (segments res))) \<and>
      ((\<forall>s\<in>set spans. span_start s \<le> span_end s) \<longrightarrow>
         (\<forall>s\<in>set (segments res). seg_start s \<le> seg_end s)) \<and>
      ((\<forall>s\<in>set spans. span_start s + 32 \<le> span_end s) \<longrightarrow>
         (\<forall>s\<in>set (segments res). seg_start s < seg_end s))) \<and>
   (transcribe_large env b f l r = Inr res \<and> read_audio env f b = Inr wav \<and>
    get_speech_timestamps env wav = Inr [] \<longrightarrow> transcribe env b f l r = Inr res)"
proof (intro conjI impI)
  assume w: "transcribe env b f l r = Inr res"
  from transcribe_result [OF w] obtain d t where
    d: "librosa_get_duration env f b = Inr d"
    and segs: "segments res = [\<lparr>seg_start = 0, seg_end = py_round d 2, seg_text = t\<rparr>]"
    and tr: "transcription res = t" and cnt: "segments_count res = 1"
    by blast
  show "segments_count res = int (length (segments res))"
    by (simp add: segs cnt)
  show "transcription res = py_join '' '' (map seg_text (segments res))"
    by (simp add: segs tr)
  show "sorted (map seg_start (segments res))"
    by (simp add: segs)
  show "\<forall>d. librosa_get_duration env f b = Inr d \<and> 0 \<le> d \<longrightarrow>
           (\<forall>s\<in>set (segments res). seg_start s \<le> seg_end s)"
    using d py_round_mono [of 0 _ 2] by (auto simp: segs py_round_zero)
  show "\<forall>d. librosa_get_duration env f b = Inr d \<and> 1 / 100 \<le> d \<longrightarrow>
           (\<forall>s\<in>set (segments res). seg_start s < seg_end s)"
  proof (intro allI impI)
    fix d' assume "librosa_get_duration env f b = Inr d' \<and> 1 / 100 \<le> d'"
    with d have "1 / 100 \<le> d" by simp
    then have "(0::real) + 2 / 10 ^ 2 \<le> d + 1 / 100" by simp
    from py_round_mono [of "1 / 100" d 2] \<open>1 / 100 \<le> d\<close> py_round_of_int [of 1 2]
    have "1 / 100 \<le> py_round d 2" by simp
    then show "\<forall>s\<in>set (segments res). seg_start s < seg_end s"
      by (simp add: segs)
  qed
next
  assume "transcribe_large env b f l r = Inr res \<and> read_audio env f b = Inr wav \<and>
    get_speech_timestamps env wav = Inr [] "
  then show "transcribe env b f l r = Inr res"
    using no_speech_fallback [of env f b wav l r] by simp
next
  assume a: "transcribe_large env b f l r = Inr res \<and> read_audio env f b = Inr wav \<and>
    get_speech_timestamps env wav = Inr spans \<and> spans \<noteq> []"
  then obtain texts where
    segs: "segments res = retained_segments (map chunk_times spans) texts"
    and tr: "transcription res = py_join '' '' (map seg_text (segments res))"
    and cnt: "segments_count res = int (length (segments res))"
    using transcribe_large_chunked [of env b f l r res wav spans] by blast
  show "segments_count res = int (length (segments res))" by (rule cnt)
  show "transcription res = py_join '' '' (map seg_text (segments res))" by (rule tr)
  show "sorted (map seg_start (segments res))" if "sorted (map span_start spans)"
    unfolding segs by (rule retained_sorted [OF sorted_chunk_times [OF that]])
  show "\<forall>s\<in>set (segments res). seg_start s \<le> seg_end s"
    if sp: "\<forall>s\<in>set spans. span_start s \<le> span_end s"
  proof
    fix s assume "s \<in> set (segments res)"
    with segs retained_times [of s "map chunk_times spans" texts]
    obtain sp' where "sp' \<in> set spans" and "seg_start s = py_round (fst (chunk_times sp')) 3"
      and "seg_end s = py_round (snd (chunk_times sp')) 3" by auto
    with sp chunk_times_ordered [of sp'] show "seg_start s \<le> seg_end s"
      by (simp add: py_round_mono)
  qed
  show "\<forall>s\<in>set (segments res). seg_start s < seg_end s"
    if sp: "\<forall>s\<in>set spans. span_start s + 32 \<le> span_end s"
  proof
    fix s assume "s \<in> set (segments res)"
    with segs retained_times [of s "map chunk_times spans" texts]
    obtain sp' where "sp' \<in> set spans" and "seg_start s = py_round (fst (chunk_times sp')) 3"
      and "seg_end s = py_round (snd (chunk_times sp')) 3" by auto
    with sp chunk_times_apart [of sp'] show "seg_start s < seg_end s"
      by (simp add: py_round_strict)
  qed
qed

lemma result_invariants_example:
  "transcribe (example_env 5 [] [] 16000 ''hello world'' []) ''RIFF'' ''a.wav'' ''eng_Latn'' ''r1'' =
     Inr \<lparr>transcription = ''hello world'', language = ''eng_Latn'', processing_time = 1,
          audio_duration = 5, segments_count = 1,
          segments = [\<lparr>seg_start = 0, seg_end = 5, seg_text = ''hello world''\<rparr>],
          request_id = ''r1''\<rparr> \<and>
   librosa_get_duration (example_env 5 [] [] 16000 ''hello world'' []) ''a.wav'' ''RIFF'' = Inr 5 \<and>
   (1 / 100 :: real) \<le> 5 \<and>
   (\<forall>s\<in>set (segments \<lparr>transcription = ''hello world'', language = ''eng_Latn'', processing_time = 1,
          audio_duration = 5, segments_count = 1,
          segments = [\<lparr>seg_start = 0, seg_end = 5, seg_text = ''hello world''\<rparr>],
          request_id = ''r1''\<rparr>). seg_start s < seg_end s) \<and>
   transcribe_large
     (example_env 3
       [\<lparr>span_start = 0, span_end = 8000\<rparr>, \<lparr>span_start = 16000, span_end = 24000\<rparr>,
        \<lparr>span_start = 32000, span_end = 40000\<rparr>]
       [7, 8, 9] 1 ''whole'' [''hi'', [], '' bye ''])
     ''RIFF'' ''a.wav'' ''eng_Latn'' ''r1'' =
     Inr \<lparr>transcription = ''hi bye'', language = ''eng_Latn'', processing_time = 1,
          audio_duration = 3, segments_count = 2,
          segments = [\<lparr>seg_start = 0, seg_end = 1 / 2, seg_text = ''hi''\<rparr>,
                      \<lparr>seg_start = 2, seg_end = 5 / 2, seg_text = ''bye''\<rparr>],
          request_id = ''r1''\<rparr> \<and>
   sorted (map span_start
       [\<lparr>span_start = 0, span_end = 8000\<rparr>, \<lparr>span_start = 16000, span_end = 24000\<rparr>,
        \<lparr>span_start = 32000, span_end = 40000\<rparr>]) \<and>
   (\<forall>s\<in>set [\<lparr>span_start = 0, span_end = 8000\<rparr>, \<lparr>span_start = 16000, span_end = 24000\<rparr>,
        \<lparr>span_start = 32000, span_end = 40000\<rparr>]. span_start s + 32 \<le> span_end s) \<and>
   sorted (map seg_start (segments \<lparr>transcription = ''hi bye'', language = ''eng_Latn'', processing_time = 1,
          audio_duration = 3, segments_count = 2,
          segments = [\<lparr>seg_start = 0, seg_end = 1 / 2, seg_text = ''hi''\<rparr>,
                      \<lparr>seg_start = 2, seg_end = 5 / 2, seg_text = ''bye''\<rparr>],
          request_id = ''r1''\<rparr>)) \<and>
   (\<forall>s\<in>set (segments \<lparr>transcription = ''hi bye'', language = ''eng_Latn'', processing_time = 1,
          audio_duration = 3, segments_count = 2,
          segments = [\<lparr>seg_start = 0, seg_end = 1 / 2, seg_text = ''hi''\<rparr>,
                      \<lparr>seg_start = 2, seg_end = 5 / 2, seg_text = ''bye''\<rparr>],
          request_id = ''r1''\<rparr>). seg_start s < seg_end s)"
  using result_invariants
          [where env = "(example_env 5 [] [] 16000 ''hello world'' [])" and b = "''RIFF''" and f = "''a.wav''"
             and l = "''eng_Latn''" and r = "''r1''" and wav = "()" and spans = "[]"
             and res = "\<lparr>transcription = ''hello world'', language = ''eng_Latn'', processing_time = 1,
          audio_duration = 5, segments_count = 1,
          segments = [\<lparr>seg_start = 0, seg_end = 5, seg_text = ''hello world''\<rparr>],
          request_id = ''r1''\<rparr>"]
        result_invariants
          [where env = "(example_env 3
       [\<lparr>span_start = 0, span_end = 8000\<rparr>, \<lparr>span_start = 16000, span_end = 24000\<rparr>,
        \<lparr>span_start = 32000, span_end = 40000\<rparr>]
       [7, 8, 9] 1 ''whole'' [''hi'', [], '' bye ''])"
             and b = "''RIFF''" and f = "''a.wav''"
             and l = "''eng_Latn''" and r = "''r1''" and wav = "()"
             and spans = "[\<lparr>span_start = 0, span_end = 8000\<rparr>, \<lparr>span_start = 16000, span_end = 24000\<rparr>,
        \<lparr>span_start = 32000, span_end = 40000\<rparr>]"
             and res = "\<lparr>transcription = ''hi bye'', language = ''eng_Latn'', processing_time = 1,
          audio_duration = 3, segments_count = 2,
          segments = [\<lparr>seg_start = 0, seg_end = 1 / 2, seg_text = ''hi''\<rparr>,
                      \<lparr>seg_start = 2, seg_end = 5 / 2, seg_text = ''bye''\<rparr>],
          request_id = ''r1''\<rparr>"]
  by (simp add: transcribe_def transcribe_large_def example_env_def make_chunk_def
        chunk_bounds_def chunk_times_def py_round_def round_half_even_def py_strip_def
        py_isspace_def whitespace_def Let_def split: prod.splits)

text \<open>
  Claim C5. Every segment of a result is to end after it starts (the test
  \<open>test_transcribe_large_with_segments\<close> asserts it of every segment of a response),
  besides the count, the order and the transcript of the lemma above. An upload of 4 ms
  of audio in which no speech is detected goes through the fallback to the whole-file
  path: the duration rounds to 0.0, and the one segment of the result starts and ends
  at 0.
\<close>

theorem short_file_segment_empty_interval:
  "transcribe_large (example_env (1 / 250) [] [] 16000 ''a'' []) ''RIFF'' ''a.wav'' ''eng_Latn''
     ''r1'' =
     Inr \<lparr>transcription = ''a'', language = ''eng_Latn'', processing_time = 1,
          audio_duration = 0, segments_count = 1,
          segments = [\<lparr>seg_start = 0, seg_end = 0, seg_text = ''a''\<rparr>],
          request_id = ''r1''\<rparr> \<and>
   transcribe (example_env (1 / 250) [] [] 16000 ''a'' []) ''RIFF'' ''a.wav'' ''eng_Latn''
     ''r1'' =
     Inr \<lparr>transcription = ''a'', language = ''eng_Latn'', processing_time = 1,
          audio_duration = 0, segments_count = 1,
          segments = [\<lparr>seg_start = 0, seg_end = 0, seg_text = ''a''\<rparr>],
          request_id = ''r1''\<rparr> \<and>
   \<not> seg_start \<lparr>seg_start = 0, seg_end = 0, seg_text = ''a''\<rparr>
       < seg_end \<lparr>seg_start = 0, seg_end = 0, seg_text = ''a''\<rparr>"
  by (simp add: transcribe_large_def transcribe_def example_env_def py_round_def
        round_half_even_def)

text \<open>
  Claim C2. When the audio is readable and the detector returns no speech span, the
  chunked path is the whole-file path on the same bytes, file name, language and request
  id: it returns the same result, field by field, when the whole-file path returns one,
  and raises only what the whole-file path raises.
\<close>

theorem no_speech_same_as_whole_file:
  assumes "read_audio env filename audio_bytes = Inr wav"
    and "get_speech_timestamps env wav = Inr []"
  shows "transcribe_large env audio_bytes filename lang rid =
           transcribe env audio_bytes filename lang rid \<and>
         (\<forall>d t ts pt.
            librosa_get_duration env filename audio_bytes = Inr d \<and>
            pipeline_transcribe env [UploadedFile filename audio_bytes] [lang] None =
              Inr (t # ts, pt) \<longrightarrow>
            transcribe_large env audio_bytes filename lang rid =
              Inr \<lparr>transcription = t, language = lang, processing_time = py_round pt 3,
                   audio_duration = py_round d 2, segments_count = 1,
                   segments = [\<lparr>seg_start = 0, seg_end = py_round d 2, seg_text = t\<rparr>],
                   request_id = rid\<rparr>)"
  using assms by (simp add: transcribe_large_def transcribe_def)

theorem no_speech_same_as_whole_file_witness:
  "read_audio (example_env 5 [] [] 16000 ''hello world'' []) ''a.wav'' ''RIFF'' = Inr () \<and>
   get_speech_timestamps (example_env 5 [] [] 16000 ''hello world'' []) () = Inr [] \<and>
   transcribe_large (example_env 5 [] [] 16000 ''hello world'' []) ''RIFF'' ''a.wav''
       ''eng_Latn'' ''r1'' =
     Inr \<lparr>transcription = ''hello world'', language = ''eng_Latn'', processing_time = 1,
          audio_duration = 5, segments_count = 1,
          segments = [\<lparr>seg_start = 0, seg_end = 5, seg_text = ''hello world''\<rparr>],
          request_id = ''r1''\<rparr> \<and>
   transcribe (example_env 5 [] [] 16000 ''hello world'' []) ''RIFF'' ''a.wav''
       ''eng_Latn'' ''r1'' =
     Inr \<lparr>transcription = ''hello world'', language = ''eng_Latn'', processing_time = 1,
          audio_duration = 5, segments_count = 1,
          segments = [\<lparr>seg_start = 0, seg_end = 5, seg_text = ''hello world''\<rparr>],
          request_id = ''r1''\<rparr>"
  using no_speech_same_as_whole_file
          [where env = "example_env 5 [] [] 16000 ''hello world'' []" and filename = "''a.wav''"
             and audio_bytes = "''RIFF''" and wav = "()" and lang = "''eng_Latn''"
             and rid = "''r1''"]
  by (simp add: example_env_def transcribe_def py_round_def round_half_even_def)

section \<open>Properties of the endpoint\<close>

lemma handler_state: "snd (transcribe_large_file env st now content filename lang) = st"
  by (simp add: transcribe_large_file_def Let_def split: sum.splits py_error.splits)

lemma handler_result:
  "fst (transcribe_large_file env st now content filename lang) =
     fst (transcribe_large_file env st' now content filename lang)"
  by (simp add: transcribe_large_file_def Let_def split: sum.splits py_error.splits)

text \<open>
  Claim C1, as the code has it. The handler of \<open>/transcribe_large\<close> neither reads nor
  writes the transcription cache or the metrics: it leaves the state of the process as
  it found it, its answer is the same whatever the cache holds, and for an upload that
  passes the validation it is what \<open>transcribe_large\<close> (segmentation and ASR engine)
  computes for this request.
\<close>

theorem handler_never_uses_cache:
  "snd (transcribe_large_file env st now content filename lang) = st \<and>
   fst (transcribe_large_file env st now content filename lang) =
     fst (transcribe_large_file env st' now content filename lang) \<and>
   (validate_file_size (int (length content)) = Inr () \<and>
    validate_file_type env content (str_or filename ''audio'') = Inr () \<and>
    validate_language env lang \<and>
    transcribe_large env content (str_or filename ''audio.wav'') lang
      (generate_request_id env now content) = Inr res \<longrightarrow>
      transcribe_large_file env st now content filename lang = (Inr res, st))"
proof (intro conjI impI)
  show "snd (transcribe_large_file env st now content filename lang) = st"
    by (rule handler_state)
  show "fst (transcribe_large_file env st now content filename lang) =
     fst (transcribe_large_file env st' now content filename lang)"
    by (rule handler_result)
  assume "validate_file_size (int (length content)) = Inr () \<and>
    validate_file_type env content (str_or filename ''audio'') = Inr () \<and>
    validate_language env lang \<and>
    transcribe_large env content (str_or filename ''audio.wav'') lang
      (generate_request_id env now content) = Inr res"
  then show "transcribe_large_file env st now content filename lang = (Inr res, st)"
    by (simp add: transcribe_large_file_def Let_def)
qed

lemma example_request_id:
  "generate_request_id (example_env 5 [] [] 16000 ''hello world'' []) 1700000000 ''RIFF'' =
     ''9f86d081884c7d65-00000000''"
  by (simp add: generate_request_id_def example_env_def py_slice_from_def py_slice_index_def
        py_int_def py_str_int_def str_nat.simps digit_char_def)

lemma example_validation:
  "validate_file_size (int (length ''RIFF'')) = Inr () \<and>
   validate_file_type (example_env 5 [] [] 16000 ''hello world'' []) ''RIFF''
     (str_or (Some ''a.wav'') ''audio'') = Inr () \<and>
   validate_language (example_env 5 [] [] 16000 ''hello world'' []) ''eng_Latn''"
  by (simp add: validate_file_size_def MAX_FILE_SIZE_def validate_file_type_def
        ALLOWED_MIME_TYPES_def validate_language_def example_env_def str_or_def)

lemma example_transcribe_large:
  "transcribe_large (example_env 5 [] [] 16000 ''hello world'' []) ''RIFF''
     (str_or (Some ''a.wav'') ''audio.wav'') ''eng_Latn'' ''9f86d081884c7d65-00000000'' =
     Inr example_fresh_result"
  by (simp add: transcribe_large_def transcribe_def example_env_def str_or_def py_round_def
        round_half_even_def example_fresh_result_def)

theorem handler_never_uses_cache_witness:
  "validate_file_size (int (length ''RIFF'')) = Inr () \<and>
   validate_file_type (example_env 5 [] [] 16000 ''hello world'' []) ''RIFF''
     (str_or (Some ''a.wav'') ''audio'') = Inr () \<and>
   validate_language (example_env 5 [] [] 16000 ''hello world'' []) ''eng_Latn'' \<and>
   transcribe_large (example_env 5 [] [] 16000 ''hello world'' []) ''RIFF''
     (str_or (Some ''a.wav'') ''audio.wav'') ''eng_Latn''
     (generate_request_id (example_env 5 [] [] 16000 ''hello world'' []) 1700000000 ''RIFF'') =
     Inr example_fresh_result \<and>
   transcribe_large_file (example_env 5 [] [] 16000 ''hello world'' []) example_state_started
       1700000000 ''RIFF'' (Some ''a.wav'') ''eng_Latn'' =
     (Inr example_fresh_result, example_state_started)"
  using handler_never_uses_cache
          [where env = "(example_env 5 [] [] 16000 ''hello world'' [])" and now = 1700000000
             and content = "''RIFF''" and filename = "Some ''a.wav''" and lang = "''eng_Latn''"
             and st = example_state_started and res = example_fresh_result]
        example_validation example_transcribe_large
  by (simp add: example_request_id)

text \<open>
  The claim as stated (C1) has a stored result returned without the engine, and a
  computed result stored. With a result stored for the request's audio, language and
  the mode \<open>large\<close>, not expired (a \<open>get\<close> would return it), the handler still answers
  with what the engine computes and leaves the cache as it was, no hit counted; with the
  empty cache, the computed result is not stored (a \<open>get\<close> afterwards returns nothing).
\<close>

theorem cached_result_not_returned_counterexample:
  "fst (TC_get (sha256_hexdigest (example_env 5 [] [] 16000 ''hello world'' []))
          (g_transcription_cache example_state_cached) ''RIFF'' ''eng_Latn'' ''large''
          1700000000) =
     Some example_cached_result \<and>
   transcribe_large_file (example_env 5 [] [] 16000 ''hello world'' []) example_state_cached
       1700000000 ''RIFF'' (Some ''a.wav'') ''eng_Latn'' =
     (Inr example_fresh_result, example_state_cached) \<and>
   example_fresh_result \<noteq> example_cached_result \<and>
   transcribe_large_file (example_env 5 [] [] 16000 ''hello world'' []) example_state_started
       1700000000 ''RIFF'' (Some ''a.wav'') ''eng_Latn'' =
     (Inr example_fresh_result, example_state_started) \<and>
   fst (TC_get (sha256_hexdigest (example_env 5 [] [] 16000 ''hello world'' []))
          (g_transcription_cache example_state_started) ''RIFF'' ''eng_Latn'' ''large''
          1700000001) =
     None"
proof -
  have a: "transcribe_large_file (example_env 5 [] [] 16000 ''hello world'' []) st
             1700000000 ''RIFF'' (Some ''a.wav'') ''eng_Latn'' =
           (Inr example_fresh_result, st)" for st
    using example_validation example_transcribe_large
    by (simp add: transcribe_large_file_def example_request_id)
  have b: "fst (TC_get (sha256_hexdigest (example_env 5 [] [] 16000 ''hello world'' []))
                  (g_transcription_cache example_state_cached) ''RIFF'' ''eng_Latn'' ''large''
                  1700000000) =
           Some example_cached_result"
    by (simp add: TC_get_def generate_key_def example_env_def LRU_get_def is_expired_def
          Let_def example_state_cached_def)
  have c: "fst (TC_get (sha256_hexdigest (example_env 5 [] [] 16000 ''hello world'' []))
                  (g_transcription_cache example_state_started) ''RIFF'' ''eng_Latn'' ''large''
                  1700000001) =
           None"
    by (simp add: TC_get_def generate_key_def example_env_def LRU_get_def Let_def
          example_state_started_def transcription_cache_def TranscriptionCache_init_def
          LRUCache_init_def)
  have d: "example_fresh_result \<noteq> example_cached_result"
    by (simp add: example_fresh_result_def example_cached_result_def)
  from a b c d show ?thesis by simp
qed

end
